theory Spec2Isabelle
  imports Complex_Main "HOL-Library.Log_Nat"
begin

section \<open>JavaScript numbers and dates\<close>

text \<open>
  A TypeScript \<open>number\<close> is an IEEE 754 double: a finite value, \<open>Infinity\<close>, \<open>-Infinity\<close> or
  \<open>NaN\<close>. \<open>Fin x\<close> is written with a real \<open>x\<close> and stands for the double nearest to \<open>x\<close>, as
  a decimal literal of the program does (\<open>Fin 1.1\<close> is the number that the literal \<open>1.1\<close>
  denotes). The sign of zero is not modelled: no operation of the program tells the two
  zeros apart.
\<close>

datatype jsnum = Fin real | PInf | NInf | NaN

fun isNaN :: "jsnum \<Rightarrow> bool" where
  "isNaN NaN = True"
| "isNaN _ = False"

subsection \<open>Rounding to the nearest double\<close>

text \<open>
  \<open>ilog2 x\<close> is the binary exponent of a positive \<open>x\<close>: \<open>2 powi (ilog2 x) \<le> x < 2 powi (ilog2 x + 1)\<close>.
  \<open>round_half_even\<close> rounds to the nearest integer, a tie going to the even one.
\<close>

definition ilog2 :: "real \<Rightarrow> int" where
  "ilog2 x = (if 1 \<le> x then bitlen \<lfloor>x\<rfloor> - 1 else - bitlen (\<lceil>1 / x\<rceil> - 1))"

definition round_half_even :: "real \<Rightarrow> int" where
  "round_half_even q =
     (let f = \<lfloor>q\<rfloor>; r = q - of_int f
      in if r < 1 / 2 then f else if 1 / 2 < r then f + 1 else if even f then f else f + 1)"

text \<open>
  The doubles are the multiples \<open>m * 2 powi e\<close> with \<open>\<bar>m\<bar> < 2 ^ 53\<close> and
  \<open>- 1074 \<le> e \<le> 971\<close>. \<open>round_to_double x\<close> is the result of an operation whose exact
  value is \<open>x\<close>, under the rounding mode of JavaScript (to nearest, ties to even): the
  multiple nearest to \<open>x\<close> of the spacing of the doubles around \<open>x\<close> (\<open>2 powi (- 1074)\<close> for
  the subnormal ones), and an infinity when that is \<open>2 ^ 1024\<close> or more in magnitude.
\<close>

definition round_to_double :: "real \<Rightarrow> jsnum" where
  "round_to_double x =
     (if x = 0 then Fin 0
      else let a = \<bar>x\<bar>;
               e = max (ilog2 a - 52) (- 1074);
               y = of_int (round_half_even (a / 2 powi e)) * 2 powi e
           in if 2 ^ 1024 \<le> y then (if 0 < x then PInf else NInf)
              else Fin (if 0 < x then y else - y))"

definition is_double :: "real \<Rightarrow> bool" where
  "is_double x = (round_to_double x = Fin x)"

text \<open>The number that a value stands for: \<open>Fin x\<close> is read as the double nearest to \<open>x\<close>.\<close>

fun as_double :: "jsnum \<Rightarrow> jsnum" where
  "as_double (Fin x) = round_to_double x"
| "as_double v = v"

text \<open>\<open>Number.isFinite\<close>: neither an infinity nor \<open>NaN\<close>.\<close>

definition isFinite :: "jsnum \<Rightarrow> bool" where
  "isFinite v = (case as_double v of Fin x \<Rightarrow> True | _ \<Rightarrow> False)"

subsection \<open>Arithmetic\<close>

text \<open>
  Sum and product of two doubles: the exact result, rounded. The special values follow
  IEEE 754: \<open>Infinity - Infinity\<close> and \<open>0 * Infinity\<close> are \<open>NaN\<close>, and \<open>NaN\<close> is contagious.
\<close>

fun add_double :: "jsnum \<Rightarrow> jsnum \<Rightarrow> jsnum" where
  "add_double (Fin a) (Fin b) = round_to_double (a + b)"
| "add_double (Fin a) PInf = PInf"
| "add_double (Fin a) NInf = NInf"
| "add_double PInf (Fin b) = PInf"
| "add_double NInf (Fin b) = NInf"
| "add_double PInf PInf = PInf"
| "add_double NInf NInf = NInf"
| "add_double PInf NInf = NaN"
| "add_double NInf PInf = NaN"
| "add_double NaN _ = NaN"
| "add_double _ NaN = NaN"

fun mul_double :: "jsnum \<Rightarrow> jsnum \<Rightarrow> jsnum" where
  "mul_double (Fin a) (Fin b) = round_to_double (a * b)"
| "mul_double (Fin a) PInf = (if a = 0 then NaN else if 0 < a then PInf else NInf)"
| "mul_double (Fin a) NInf = (if a = 0 then NaN else if 0 < a then NInf else PInf)"
| "mul_double PInf (Fin b) = (if b = 0 then NaN else if 0 < b then PInf else NInf)"
| "mul_double NInf (Fin b) = (if b = 0 then NaN else if 0 < b then NInf else PInf)"
| "mul_double PInf PInf = PInf"
| "mul_double PInf NInf = NInf"
| "mul_double NInf PInf = NInf"
| "mul_double NInf NInf = PInf"
| "mul_double NaN _ = NaN"
| "mul_double _ NaN = NaN"

text \<open>
  The operators \<open>+\<close>, \<open>-\<close> and \<open>*\<close> of JavaScript on numbers. Negation is exact, and
  \<open>a - b\<close> is \<open>a + (- b)\<close>, which rounds as the subtraction does.
\<close>

instantiation jsnum :: "{plus, minus, uminus, times}"
begin

fun uminus_jsnum :: "jsnum \<Rightarrow> jsnum" where
  "uminus_jsnum (Fin a) = Fin (- a)"
| "uminus_jsnum PInf = NInf"
| "uminus_jsnum NInf = PInf"
| "uminus_jsnum NaN = NaN"

definition plus_jsnum :: "jsnum \<Rightarrow> jsnum \<Rightarrow> jsnum" where
  "plus_jsnum a b = add_double (as_double a) (as_double b)"

definition minus_jsnum :: "jsnum \<Rightarrow> jsnum \<Rightarrow> jsnum" where
  "minus_jsnum a b = a + (- b)"

definition times_jsnum :: "jsnum \<Rightarrow> jsnum \<Rightarrow> jsnum" where
  "times_jsnum a b = mul_double (as_double a) (as_double b)"

instance ..

end

text \<open>The comparison \<open>a < b\<close> of JavaScript: false as soon as one side is \<open>NaN\<close>.\<close>

fun js_less :: "jsnum \<Rightarrow> jsnum \<Rightarrow> bool" where
  "js_less (Fin a) (Fin b) = (a < b)"
| "js_less (Fin a) PInf = True"
| "js_less NInf (Fin b) = True"
| "js_less NInf PInf = True"
| "js_less _ _ = False"

text \<open>\<open>Math.max\<close> and \<open>Math.min\<close> of two arguments: \<open>NaN\<close> if either is \<open>NaN\<close>.\<close>

definition Math_max :: "jsnum \<Rightarrow> jsnum \<Rightarrow> jsnum" where
  "Math_max a b = (if isNaN a \<or> isNaN b then NaN else if js_less a b then b else a)"

definition Math_min :: "jsnum \<Rightarrow> jsnum \<Rightarrow> jsnum" where
  "Math_min a b = (if isNaN a \<or> isNaN b then NaN else if js_less b a then b else a)"

text \<open>
  A \<open>Date\<close> holds a time value: an integral number of milliseconds, or \<open>NaN\<close> (an invalid
  date). \<open>new Date(x)\<close> stores \<open>TimeClip(x)\<close>: invalid when \<open>x\<close> is not finite or beyond
  \<open>8.64e15\<close> in magnitude, otherwise \<open>x\<close> truncated towards zero. \<open>getTime\<close> reads the time
  value back as a number.
\<close>

datatype jsdate = Date int | InvalidDate

definition trunc :: "real \<Rightarrow> int" where
  "trunc x = (if 0 \<le> x then \<lfloor>x\<rfloor> else \<lceil>x\<rceil>)"

definition new_Date :: "jsnum \<Rightarrow> jsdate" where
  "new_Date v =
     (case as_double v of
        Fin x \<Rightarrow> if \<bar>x\<bar> \<le> 8640000000000000 then Date (trunc x) else InvalidDate
      | _ \<Rightarrow> InvalidDate)"

fun getTime :: "jsdate \<Rightarrow> jsnum" where
  "getTime (Date t) = Fin (of_int t)"
| "getTime InvalidDate = NaN"

section \<open>The time mapping: \<open>lib/core/timeCalculation.ts\<close>\<close>

definition computeMercurialTime :: "jsnum \<Rightarrow> jsnum \<Rightarrow> jsnum \<Rightarrow> jsnum \<Rightarrow> jsnum" where
  "computeMercurialTime baseRealMs baseDisplayMs nowRealMs rate =
     (let elapsedReal = nowRealMs - baseRealMs;
          elapsedDisplay = elapsedReal * rate
      in baseDisplayMs + elapsedDisplay)"

section \<open>The time store: \<open>lib/core/mercurialTime.ts\<close>\<close>

text \<open>The published snapshot, \<open>MercurialTimeState\<close> of \<open>lib/core/types.ts\<close>.\<close>

record MercurialTimeState =
  displayTime :: jsdate
  realTime :: jsdate
  rate :: jsnum
  isRunning :: bool

text \<open>
  The closure of \<open>createMercurialTimeStore\<close>: its five variables, the Svelte \<open>writable\<close>
  it owns, and the part of the host it talks to.

  \<^item> \<open>baseRealMs\<close>, \<open>baseDisplayMs\<close> only ever receive results of \<open>Date.now()\<close>, which are
    integral, so they are integers here.
  \<^item> \<open>storeValue\<close> is the value held by the \<open>writable\<close>: what a subscriber receives when it
    subscribes and what \<open>get(store)\<close> returns. \<open>published\<close> lists, oldest first, the
    snapshots passed to \<open>set\<close>; each is a fresh object, so the store always accepts it
    and notifies its subscribers.
  \<^item> \<open>pending\<close> are the frame requests the host still holds (requested, neither run nor
    cancelled) and \<open>nextId\<close> the handle the next \<open>requestAnimationFrame\<close> returns.
\<close>

record MercurialTimeStore =
  baseRealMs :: int
  baseDisplayMs :: int
  rate :: jsnum
  isRunning :: bool
  rafId :: "nat option"
  storeValue :: MercurialTimeState
  published :: "MercurialTimeState list"
  pending :: "nat list"
  nextId :: nat

text \<open>
  Every call of \<open>Date.now()\<close> is an argument of the operation that makes it, in the order
  of the calls: the clock may advance between two reads of one operation.
\<close>

definition computeState :: "MercurialTimeStore \<Rightarrow> int \<Rightarrow> MercurialTimeState" where
  "computeState e nowRealMs =
     (let displayMs = computeMercurialTime (Fin (of_int (baseRealMs e)))
                        (Fin (of_int (baseDisplayMs e))) (Fin (of_int nowRealMs))
                        (MercurialTimeStore.rate e)
      in \<lparr> displayTime = new_Date displayMs,
           realTime = new_Date (Fin (of_int nowRealMs)),
           MercurialTimeState.rate = MercurialTimeStore.rate e,
           MercurialTimeState.isRunning = MercurialTimeStore.isRunning e \<rparr>)"

definition set_store :: "MercurialTimeState \<Rightarrow> MercurialTimeStore \<Rightarrow> MercurialTimeStore" where
  "set_store v e = e\<lparr> storeValue := v, published := published e @ [v] \<rparr>"

text \<open>What a reader of the store sees (\<open>subscribe\<close>, \<open>get\<close>, \<open>$timeStore\<close>).\<close>

definition subscribe :: "MercurialTimeStore \<Rightarrow> MercurialTimeState" where
  "subscribe e = storeValue e"

definition requestAnimationFrame :: "MercurialTimeStore \<Rightarrow> nat \<times> MercurialTimeStore" where
  "requestAnimationFrame e =
     (nextId e, e\<lparr> pending := pending e @ [nextId e], nextId := Suc (nextId e) \<rparr>)"

definition cancelAnimationFrame :: "nat \<Rightarrow> MercurialTimeStore \<Rightarrow> MercurialTimeStore" where
  "cancelAnimationFrame i e = e\<lparr> pending := removeAll i (pending e) \<rparr>"

definition startLoop :: "MercurialTimeStore \<Rightarrow> MercurialTimeStore" where
  "startLoop e =
     (if rafId e \<noteq> None then e
      else let (i, e1) = requestAnimationFrame e in e1\<lparr> rafId := Some i \<rparr>)"

definition stopLoop :: "MercurialTimeStore \<Rightarrow> MercurialTimeStore" where
  "stopLoop e =
     (case rafId e of
        None \<Rightarrow> e
      | Some i \<Rightarrow> (cancelAnimationFrame i e)\<lparr> rafId := None \<rparr>)"

text \<open>
  \<open>createMercurialTimeStore\<close> reads the clock twice: for the anchors (\<open>t0\<close>) and in the
  \<open>computeState()\<close> that initialises the \<open>writable\<close> (\<open>t1\<close>). That first \<open>computeState()\<close>
  runs before the store exists, on the initial values of the variables, which are written
  out below. The initial value is not passed to \<open>set\<close>, so nothing is published yet.
\<close>

definition createMercurialTimeStore :: "jsnum \<Rightarrow> int \<Rightarrow> int \<Rightarrow> MercurialTimeStore" where
  "createMercurialTimeStore initialRate t0 t1 =
     (let displayMs = computeMercurialTime (Fin (of_int t0)) (Fin (of_int t0))
                        (Fin (of_int t1)) initialRate;
          v = \<lparr> displayTime = new_Date displayMs,
                realTime = new_Date (Fin (of_int t1)),
                MercurialTimeState.rate = initialRate,
                MercurialTimeState.isRunning = True \<rparr>
      in startLoop \<lparr> baseRealMs = t0, baseDisplayMs = t0,
                     MercurialTimeStore.rate = initialRate,
                     MercurialTimeStore.isRunning = True,
                     rafId = None,
                     storeValue = v, published = [], pending = [], nextId = 1 \<rparr>)"

definition setRate :: "jsnum \<Rightarrow> int \<Rightarrow> int \<Rightarrow> MercurialTimeStore \<Rightarrow> MercurialTimeStore" where
  "setRate newRate now t e =
     (let e1 = e\<lparr> baseRealMs := now, baseDisplayMs := now, MercurialTimeStore.rate := newRate \<rparr>
      in set_store (computeState e1 t) e1)"

definition reset :: "int \<Rightarrow> int \<Rightarrow> MercurialTimeStore \<Rightarrow> MercurialTimeStore" where
  "reset now t e =
     (let e1 = e\<lparr> baseRealMs := now, baseDisplayMs := now \<rparr>
      in set_store (computeState e1 t) e1)"

definition start :: "int \<Rightarrow> MercurialTimeStore \<Rightarrow> MercurialTimeStore" where
  "start t e =
     (if MercurialTimeStore.isRunning e then e
      else let e1 = startLoop (e\<lparr> MercurialTimeStore.isRunning := True \<rparr>)
           in set_store (computeState e1 t) e1)"

definition stop :: "int \<Rightarrow> MercurialTimeStore \<Rightarrow> MercurialTimeStore" where
  "stop t e =
     (if \<not> MercurialTimeStore.isRunning e then e
      else let e1 = stopLoop (e\<lparr> MercurialTimeStore.isRunning := False \<rparr>)
           in set_store (computeState e1 t) e1)"

definition destroy :: "MercurialTimeStore \<Rightarrow> MercurialTimeStore" where
  "destroy e = stopLoop e"

text \<open>
  \<open>set\<close> runs the subscribers before it returns, and a subscriber may call the store. In
  \<open>setRate\<close>, \<open>reset\<close>, \<open>start\<close> and \<open>stop\<close> the call of \<open>set\<close> is the last statement, so
  what a subscriber calls there is the same as a call made right after the operation.
  \<open>tick\<close> is the one function that goes on after \<open>set\<close>: it requests the next frame and
  assigns \<open>rafId\<close>. Its model takes the calls that the subscribers make while they are
  notified, in order, and runs them between the two statements.
\<close>

datatype call =
    CallSetRate jsnum int int
  | CallReset int int
  | CallStart int
  | CallStop int
  | CallDestroy

fun do_call :: "MercurialTimeStore \<Rightarrow> call \<Rightarrow> MercurialTimeStore" where
  "do_call e (CallSetRate r now t) = setRate r now t e"
| "do_call e (CallReset now t) = reset now t e"
| "do_call e (CallStart t) = start t e"
| "do_call e (CallStop t) = stop t e"
| "do_call e CallDestroy = destroy e"

definition do_calls :: "MercurialTimeStore \<Rightarrow> call list \<Rightarrow> MercurialTimeStore" where
  "do_calls e calls = foldl do_call e calls"

definition tick :: "int \<Rightarrow> call list \<Rightarrow> MercurialTimeStore \<Rightarrow> MercurialTimeStore" where
  "tick now calls e =
     (if \<not> MercurialTimeStore.isRunning e then e
      else let e1 = set_store (computeState e now) e;
               e2 = do_calls e1 calls;
               (i, e3) = requestAnimationFrame e2
           in e3\<lparr> rafId := Some i \<rparr>)"

text \<open>
  The host runs a frame request at most once: firing request \<open>i\<close> removes it from the
  pending ones and calls \<open>tick\<close>; a request that was cancelled, or already run, does nothing.
  \<open>frame_calling\<close> is a frame during which the subscribers make the given calls, \<open>frame\<close> one
  during which they make none.
\<close>

definition frame_calling ::
  "nat \<Rightarrow> int \<Rightarrow> call list \<Rightarrow> MercurialTimeStore \<Rightarrow> MercurialTimeStore" where
  "frame_calling i now calls e =
     (if i \<in> set (pending e) then tick now calls (e\<lparr> pending := removeAll i (pending e) \<rparr>)
      else e)"

definition frame :: "nat \<Rightarrow> int \<Rightarrow> MercurialTimeStore \<Rightarrow> MercurialTimeStore" where
  "frame i now e = frame_calling i now [] e"

text \<open>
  Everything that can happen to a store after its creation, with the clock reads it makes,
  when no subscriber calls the store while it is notified.
\<close>

datatype event =
    SetRate jsnum int int
  | Reset int int
  | Start int
  | Stop int
  | Destroy
  | Frame nat int

fun step :: "MercurialTimeStore \<Rightarrow> event \<Rightarrow> MercurialTimeStore" where
  "step e (SetRate r now t) = setRate r now t e"
| "step e (Reset now t) = reset now t e"
| "step e (Start t) = start t e"
| "step e (Stop t) = stop t e"
| "step e Destroy = destroy e"
| "step e (Frame i now) = frame i now e"

definition run :: "MercurialTimeStore \<Rightarrow> event list \<Rightarrow> MercurialTimeStore" where
  "run e evs = foldl step e evs"

subsection \<open>Vocabulary of the store's properties\<close>

text \<open>
  \<open>published_at e ev\<close> is the clock read of the snapshot that event \<open>ev\<close> passes to \<open>set\<close>
  in state \<open>e\<close>, if it passes one: \<open>start\<close> returns early on a running store, \<open>stop\<close> on a
  stopped one, \<open>destroy\<close> never calls \<open>set\<close>, and a frame publishes when its request is
  still pending and the store is running.
\<close>

fun published_at :: "MercurialTimeStore \<Rightarrow> event \<Rightarrow> int option" where
  "published_at e (SetRate r now t) = Some t"
| "published_at e (Reset now t) = Some t"
| "published_at e (Start t) = (if MercurialTimeStore.isRunning e then None else Some t)"
| "published_at e (Stop t) = (if MercurialTimeStore.isRunning e then Some t else None)"
| "published_at e Destroy = None"
| "published_at e (Frame i now) =
     (if i \<in> set (pending e) \<and> MercurialTimeStore.isRunning e then Some now else None)"


text \<open>Events that leave a stopped store as it is: frames, \<open>stop\<close> and \<open>destroy\<close>.\<close>

fun frozen :: "event \<Rightarrow> bool" where
  "frozen (Frame i now) = True"
| "frozen Destroy = True"
| "frozen (Stop t) = True"
| "frozen _ = False"

fun is_Start :: "event \<Rightarrow> bool" where
  "is_Start (Start t) = True"
| "is_Start _ = False"

section \<open>Settings: \<open>lib/core/types.ts\<close>\<close>

text \<open>
  The TypeScript types of \<open>Settings\<close> are not checked at run time, so the record keeps what
  the fields hold then: any number, any strings.
\<close>

record Settings =
  rate :: jsnum
  showSecondHand :: bool
  showNumbers :: bool
  showDigitalTime :: bool
  theme :: string
  colorMode :: string

definition DEFAULT_SETTINGS :: Settings where
  "DEFAULT_SETTINGS =
     \<lparr> Settings.rate = Fin 1.1, showSecondHand = False, showNumbers = True,
       showDigitalTime = False, theme = ''classic'', colorMode = ''system'' \<rparr>"

definition RATE_MIN :: jsnum where
  "RATE_MIN = Fin 0.1"

definition RATE_MAX :: jsnum where
  "RATE_MAX = Fin 10.0"

section \<open>Values of type \<open>unknown\<close>\<close>

text \<open>
  What \<open>normalizeSettings\<close> may be handed: the primitive values and plain objects, an object
  being the list of its own properties (an earlier entry hides a later one of the same
  name; an array is the object of its indices and \<open>length\<close>). Objects whose properties
  compute or throw when read (getters, proxies) are not modelled.
\<close>

datatype jsval =
    JUndefined
  | JNull
  | JBool bool
  | JNum jsnum
  | JStr string
  | JObj "(string \<times> jsval) list"
  | JBigInt int
  | JSymbol
  | JFunction

fun typeof :: "jsval \<Rightarrow> string" where
  "typeof JUndefined = ''undefined''"
| "typeof JNull = ''object''"
| "typeof (JBool b) = ''boolean''"
| "typeof (JNum n) = ''number''"
| "typeof (JStr s) = ''string''"
| "typeof (JObj kvs) = ''object''"
| "typeof (JBigInt i) = ''bigint''"
| "typeof JSymbol = ''symbol''"
| "typeof JFunction = ''function''"

text \<open>
  Reading a property, as in \<open>input.rate\<close>: \<open>undefined\<close> when the object has none of that
  name. (None of the six names that \<open>normalizeSettings\<close> reads is inherited from a built-in
  prototype.)
\<close>

fun get_prop :: "jsval \<Rightarrow> string \<Rightarrow> jsval" where
  "get_prop (JObj kvs) k = (case map_of kvs k of None \<Rightarrow> JUndefined | Some v \<Rightarrow> v)"
| "get_prop _ k = JUndefined"

section \<open>The host: \<open>localStorage\<close>, \<open>JSON\<close>, \<open>parseFloat\<close>\<close>

text \<open>
  The built-ins the storage code calls are parameters of the model: a record of functions
  over a storage state \<open>'st\<close>. A call that throws returns \<open>Inl\<close>. \<open>getItem\<close> returns
  \<open>null\<close> (\<open>None\<close>) or the stored string; \<open>setItem\<close> returns the storage it leaves.
\<close>

datatype error = Error string

record 'st host =
  getItem :: "'st \<Rightarrow> string \<Rightarrow> error + string option"
  setItem :: "'st \<Rightarrow> string \<Rightarrow> string \<Rightarrow> error + 'st"
  JSON_parse :: "string \<Rightarrow> error + jsval"
  JSON_stringify :: "jsval \<Rightarrow> error + string"
  parseFloat :: "string \<Rightarrow> jsnum"

section \<open>Storage: \<open>lib/utils/storage.ts\<close>\<close>

definition STORAGE_KEY :: string where
  "STORAGE_KEY = ''mercurial-clock-settings''"

definition VALID_COLOR_MODES :: "string list" where
  "VALID_COLOR_MODES = [''system'', ''light'', ''dark'']"

definition VALID_THEMES :: "string list" where
  "VALID_THEMES = [''classic'']"

definition clamp :: "jsnum \<Rightarrow> jsnum \<Rightarrow> jsnum \<Rightarrow> jsnum" where
  "clamp v lo hi = Math_min (Math_max v lo) hi"

text \<open>
  \<open>VALID_THEMES.includes(x)\<close> compares with each element: only a string can be equal to one
  of them. \<open>as_string\<close> is the cast \<open>x as 'classic'\<close> of a value known to be a string.
\<close>

definition array_includes :: "string list \<Rightarrow> jsval \<Rightarrow> bool" where
  "array_includes xs v = (case v of JStr s \<Rightarrow> s \<in> set xs | _ \<Rightarrow> False)"

definition as_string :: "jsval \<Rightarrow> string \<Rightarrow> string" where
  "as_string v d = (case v of JStr s \<Rightarrow> s | _ \<Rightarrow> d)"

definition normalizeSettings :: "'st host \<Rightarrow> jsval \<Rightarrow> Settings" where
  "normalizeSettings h raw =
     (if raw = JNull \<or> raw = JUndefined then DEFAULT_SETTINGS
      else if typeof raw \<noteq> ''object'' then DEFAULT_SETTINGS
      else
        let input = raw;
            rate =
              (if get_prop input ''rate'' \<noteq> JUndefined then
                 (let parsed = (case get_prop input ''rate'' of
                                  JStr s \<Rightarrow> JNum (parseFloat h s)
                                | v \<Rightarrow> v)
                  in case parsed of
                       JNum n \<Rightarrow> if \<not> isNaN n then clamp n RATE_MIN RATE_MAX
                                 else Settings.rate DEFAULT_SETTINGS
                     | _ \<Rightarrow> Settings.rate DEFAULT_SETTINGS)
               else Settings.rate DEFAULT_SETTINGS);
            showSecondHand =
              (case get_prop input ''showSecondHand'' of
                 JBool b \<Rightarrow> b
               | _ \<Rightarrow> Settings.showSecondHand DEFAULT_SETTINGS);
            showNumbers =
              (case get_prop input ''showNumbers'' of
                 JBool b \<Rightarrow> b
               | _ \<Rightarrow> Settings.showNumbers DEFAULT_SETTINGS);
            showDigitalTime =
              (case get_prop input ''showDigitalTime'' of
                 JBool b \<Rightarrow> b
               | _ \<Rightarrow> Settings.showDigitalTime DEFAULT_SETTINGS);
            theme =
              (if array_includes VALID_THEMES (get_prop input ''theme'')
               then as_string (get_prop input ''theme'') (Settings.theme DEFAULT_SETTINGS)
               else Settings.theme DEFAULT_SETTINGS);
            colorMode =
              (if array_includes VALID_COLOR_MODES (get_prop input ''colorMode'')
               then as_string (get_prop input ''colorMode'') (Settings.colorMode DEFAULT_SETTINGS)
               else Settings.colorMode DEFAULT_SETTINGS)
        in \<lparr> Settings.rate = rate, showSecondHand = showSecondHand, showNumbers = showNumbers,
             showDigitalTime = showDigitalTime, theme = theme, colorMode = colorMode \<rparr>)"

text \<open>\<open>try { body } catch { handler }\<close>: the handler runs when the body throws.\<close>

definition try_catch :: "error + 'a \<Rightarrow> (error \<Rightarrow> error + 'a) \<Rightarrow> error + 'a" where
  "try_catch body handler = (case body of Inl e \<Rightarrow> handler e | Inr v \<Rightarrow> Inr v)"

text \<open>\<open>!stored\<close> holds for \<open>null\<close> and for the empty string.\<close>

definition loadFromStorage :: "'st host \<Rightarrow> 'st \<Rightarrow> error + Settings" where
  "loadFromStorage h st =
     try_catch
       (case getItem h st STORAGE_KEY of
          Inl e \<Rightarrow> Inl e
        | Inr stored \<Rightarrow>
            (case stored of
               None \<Rightarrow> Inr DEFAULT_SETTINGS
             | Some txt \<Rightarrow>
                 if txt = [] then Inr DEFAULT_SETTINGS
                 else (case JSON_parse h txt of
                         Inl e \<Rightarrow> Inl e
                       | Inr parsed \<Rightarrow> Inr (normalizeSettings h parsed))))
       (\<lambda>e. Inr DEFAULT_SETTINGS)"

text \<open>The object that a \<open>Settings\<close> value is, as handed to \<open>JSON.stringify\<close>.\<close>

definition settings_object :: "Settings \<Rightarrow> jsval" where
  "settings_object s =
     JObj [(''rate'', JNum (Settings.rate s)),
           (''showSecondHand'', JBool (showSecondHand s)),
           (''showNumbers'', JBool (showNumbers s)),
           (''showDigitalTime'', JBool (showDigitalTime s)),
           (''theme'', JStr (theme s)),
           (''colorMode'', JStr (colorMode s))]"

text \<open>
  If \<open>setItem\<close> throws, the storage is as it was. \<open>saveToStorage\<close> returns nothing; the
  model returns the storage it leaves.
\<close>

definition saveToStorage :: "'st host \<Rightarrow> Settings \<Rightarrow> 'st \<Rightarrow> error + 'st" where
  "saveToStorage h settings st =
     try_catch
       (case JSON_stringify h (settings_object settings) of
          Inl e \<Rightarrow> Inl e
        | Inr txt \<Rightarrow> setItem h st STORAGE_KEY txt)
       (\<lambda>e. Inr st)"

subsection \<open>Vocabulary of the storage properties\<close>

text \<open>
  A well-formed \<open>Settings\<close>: a finite rate within \<open>[0.1, 10]\<close>, a known theme and colour mode
  (the flags are booleans by their type).
\<close>

definition valid_settings :: "Settings \<Rightarrow> bool" where
  "valid_settings s =
     ((case Settings.rate s of Fin r \<Rightarrow> 0.1 \<le> r \<and> r \<le> 10 | _ \<Rightarrow> False)
      \<and> theme s \<in> set VALID_THEMES \<and> colorMode s \<in> set VALID_COLOR_MODES)"

text \<open>
  The rate that a number is normalised to, in the words of the specification: the default
  for \<open>NaN\<close>, the nearer bound outside \<open>[0.1, 10]\<close>, the number itself inside.
\<close>

definition spec_rate :: "jsnum \<Rightarrow> jsnum" where
  "spec_rate n =
     (if isNaN n then Fin 1.1
      else if js_less n (Fin 0.1) then Fin 0.1
      else if js_less (Fin 10) n then Fin 10
      else n)"

definition field_names :: "string list" where
  "field_names =
     [''rate'', ''showSecondHand'', ''showNumbers'', ''showDigitalTime'', ''theme'', ''colorMode'']"

text \<open>
  A host for the examples: a storage that is a list of entries, with a quota on the length
  of a value and a switch for read access; \<open>JSON\<close> on the one settings object the examples
  save; \<open>parseFloat\<close> on the one string they parse.
\<close>

definition example_settings :: Settings where
  "example_settings = DEFAULT_SETTINGS\<lparr> Settings.rate := Fin 2 \<rparr>"

definition example_text :: string where
  \<open>example_text = ''{"rate":2,"showSecondHand":false,"showNumbers":true,"showDigitalTime":false,"theme":"classic","colorMode":"system"}''\<close>

definition memory_host :: "nat \<Rightarrow> bool \<Rightarrow> ((string \<times> string) list) host" where
  "memory_host quota readable =
     \<lparr> getItem = (\<lambda>st k. if readable then Inr (map_of st k) else Inl (Error ''SecurityError'')),
       setItem = (\<lambda>st k v. if quota < length v then Inl (Error ''QuotaExceededError'')
                           else Inr ((k, v) # st)),
       JSON_parse = (\<lambda>txt. if txt = example_text then Inr (settings_object example_settings)
                            else Inl (Error ''SyntaxError'')),
       JSON_stringify = (\<lambda>v. if v = settings_object example_settings then Inr example_text
                              else Inl (Error ''TypeError'')),
       parseFloat = (\<lambda>s. if s = ''1.5'' then Fin 1.5 else NaN) \<rparr>"

section \<open>Rounding: lemmas\<close>

lemma ilog2_le: assumes "0 < a" shows "2 powi (ilog2 a) \<le> a"
proof (cases "1 \<le> a")
  case True
  then have n: "0 < \<lfloor>a\<rfloor>" by linarith
  from bitlen_bounds [OF n] have "(2::int) ^ nat (bitlen \<lfloor>a\<rfloor> - 1) \<le> \<lfloor>a\<rfloor>" by simp
  then have "real_of_int (2 ^ nat (bitlen \<lfloor>a\<rfloor> - 1)) \<le> real_of_int \<lfloor>a\<rfloor>"
    by (simp only: of_int_le_iff)
  then have "(2::real) ^ nat (bitlen \<lfloor>a\<rfloor> - 1) \<le> a" by (simp add: le_floor_iff)
  moreover from n have "1 \<le> bitlen \<lfloor>a\<rfloor>" by (simp add: bitlen_alt_def)
  ultimately show ?thesis using True by (simp add: ilog2_def power_int_def)
next
  case False
  with assms have a1: "1 < 1 / a" by simp
  then have c: "2 \<le> \<lceil>1 / a\<rceil>" by linarith
  define n where "n = \<lceil>1 / a\<rceil> - 1"
  from c have n: "0 < n" by (simp add: n_def)
  from bitlen_bounds [OF n] have "n < 2 ^ nat (bitlen n)" by simp
  then have "\<lceil>1 / a\<rceil> \<le> 2 ^ nat (bitlen n)" by (simp add: n_def)
  then have "real_of_int \<lceil>1 / a\<rceil> \<le> real_of_int (2 ^ nat (bitlen n))"
    by (simp only: of_int_le_iff)
  then have "1 / a \<le> 2 ^ nat (bitlen n)" by (simp add: ceiling_le_iff)
  with assms have "1 / 2 ^ nat (bitlen n) \<le> a"
    by (simp add: field_simps)
  moreover have "(2::real) powi (- bitlen n) = 1 / 2 ^ nat (bitlen n)"
    using bitlen_nonneg [of n] by (simp only: power_int_minus_divide power_int_nonneg_exp)
  moreover have "ilog2 a = - bitlen n"
    using False by (simp add: ilog2_def n_def)
  ultimately show ?thesis by simp
qed

lemma ilog2_less: assumes "0 < a" shows "a < 2 powi (ilog2 a + 1)"
proof (cases "1 \<le> a")
  case True
  then have n: "0 < \<lfloor>a\<rfloor>" by linarith
  from bitlen_bounds [OF n] have "\<lfloor>a\<rfloor> + 1 \<le> 2 ^ nat (bitlen \<lfloor>a\<rfloor>)" by simp
  then have "real_of_int (\<lfloor>a\<rfloor> + 1) \<le> real_of_int (2 ^ nat (bitlen \<lfloor>a\<rfloor>))"
    by (simp only: of_int_le_iff)
  then have A: "real_of_int \<lfloor>a\<rfloor> + 1 \<le> 2 ^ nat (bitlen \<lfloor>a\<rfloor>)" by simp
  have B: "a < real_of_int \<lfloor>a\<rfloor> + 1" by linarith
  from A B have "a < 2 ^ nat (bitlen \<lfloor>a\<rfloor>)" by (rule less_le_trans [rotated])
  moreover have "0 \<le> bitlen \<lfloor>a\<rfloor>" by (rule bitlen_nonneg)
  ultimately show ?thesis using True by (simp add: ilog2_def power_int_nonneg_exp)
next
  case False
  with assms have a1: "1 < 1 / a" by simp
  then have c: "2 \<le> \<lceil>1 / a\<rceil>" by linarith
  define n where "n = \<lceil>1 / a\<rceil> - 1"
  from c have n: "0 < n" by (simp add: n_def)
  then have j: "1 \<le> bitlen n" by (simp add: bitlen_alt_def)
  from bitlen_bounds [OF n] have "2 ^ nat (bitlen n - 1) \<le> n" by simp
  then have "real_of_int (2 ^ nat (bitlen n - 1)) \<le> real_of_int n"
    by (simp only: of_int_le_iff)
  then have A: "(2::real) ^ nat (bitlen n - 1) \<le> real_of_int n" by simp
  have B: "real_of_int n < 1 / a" unfolding n_def by linarith
  from A B have "2 ^ nat (bitlen n - 1) < 1 / a" by (rule le_less_trans)
  with assms have "a < 1 / 2 ^ nat (bitlen n - 1)"
    by (simp add: field_simps)
  moreover have "(2::real) powi (- (bitlen n - 1)) = 1 / 2 ^ nat (bitlen n - 1)"
    using j by (simp only: power_int_minus_divide power_int_nonneg_exp)
  moreover have "ilog2 a + 1 = - (bitlen n - 1)"
    using False by (simp add: ilog2_def n_def)
  ultimately show ?thesis by simp
qed

lemma powi_less_imp_less: "(2::real) powi i < 2 powi j \<Longrightarrow> i < j"
  by (rule ccontr) (simp add: not_less power_int_increasing not_le [symmetric])

lemma ilog2_unique:
  assumes "0 < a" "2 powi k \<le> a" "a < 2 powi (k + 1)"
  shows "ilog2 a = k"
proof -
  from assms(2) ilog2_less [OF assms(1)] have "(2::real) powi k < 2 powi (ilog2 a + 1)" by simp
  then have "k < ilog2 a + 1" by (rule powi_less_imp_less)
  moreover from ilog2_le [OF assms(1)] assms(3) have "(2::real) powi (ilog2 a) < 2 powi (k + 1)"
    by simp
  then have "ilog2 a < k + 1" by (rule powi_less_imp_less)
  ultimately show ?thesis by simp
qed

lemma round_half_even_int [simp]: "round_half_even (of_int z) = z"
  by (simp add: round_half_even_def)

lemma round_half_even_near:
  assumes "\<bar>q - of_int m\<bar> < 1 / 2"
  shows "round_half_even q = m"
proof -
  from assms have "\<lfloor>q\<rfloor> = m \<or> \<lfloor>q\<rfloor> = m - 1" by linarith
  then show ?thesis
  proof
    assume f: "\<lfloor>q\<rfloor> = m"
    from assms have "q - of_int m < 1 / 2" by linarith
    with f show ?thesis by (simp add: round_half_even_def Let_def)
  next
    assume f: "\<lfloor>q\<rfloor> = m - 1"
    with assms have "1 / 2 < q - of_int (m - 1)" by linarith
    with f show ?thesis by (simp add: round_half_even_def Let_def)
  qed
qed

lemma round_half_even_tie_up:
  assumes "q = of_int m - 1 / 2" "even m"
  shows "round_half_even q = m"
proof -
  from assms(1) have f: "\<lfloor>q\<rfloor> = m - 1" by linarith
  with assms(1) have "q - of_int \<lfloor>q\<rfloor> = 1 / 2" by simp
  with f assms(2) show ?thesis by (simp add: round_half_even_def Let_def)
qed

lemma round_to_double_0 [simp]: "round_to_double 0 = Fin 0"
  by (simp add: round_to_double_def)

lemma round_to_double_neg: "round_to_double (- x) = - round_to_double x"
  by (simp add: round_to_double_def Let_def)

text \<open>Every \<open>m * 2 powi e\<close> with \<open>\<bar>m\<bar> < 2 ^ 53\<close> and \<open>e\<close> in range is a double.\<close>

lemma round_dyadic_pos:
  assumes m: "0 < m" "m < 2 ^ 53" and e0: "- 1074 \<le> e0" "e0 \<le> 971"
  shows "round_to_double (of_int m * 2 powi e0) = Fin (of_int m * 2 powi e0)"
proof -
  define a :: real where "a = of_int m * 2 powi e0"
  have apos: "0 < a" using m by (simp add: a_def)
  have "real_of_int m < real_of_int (2 ^ 53)" using m by (simp only: of_int_less_iff)
  then have "a < 2 ^ 53 * 2 powi e0" by (simp add: a_def)
  also have "\<dots> = 2 powi (53 + e0)" by (simp add: power_int_add)
  finally have ub: "a < 2 powi (53 + e0)" .
  define k where "k = ilog2 a"
  have "2 powi k < (2::real) powi (53 + e0)"
    using ilog2_le [OF apos] ub by (simp add: k_def)
  then have k: "k < 53 + e0"
    by (rule powi_less_imp_less)
  define e where "e = max (k - 52) (- 1074)"
  have ee: "e \<le> e0" using k e0 by (simp add: e_def)
  define z where "z = m * 2 ^ nat (e0 - e)"
  have "a / 2 powi e = of_int m * 2 powi (e0 - e)"
    by (simp add: a_def power_int_diff)
  also have "\<dots> = of_int z" using ee by (simp add: z_def power_int_nonneg_exp)
  finally have q: "a / 2 powi e = of_int z" .
  have y: "of_int z * 2 powi e = a" using q by (simp add: field_simps)
  have "(2::real) powi (53 + e0) \<le> 2 powi 1024"
    using e0 by (intro power_int_increasing) simp_all
  with ub have no: "\<not> 2 ^ 1024 \<le> a" by simp
  show ?thesis
    using apos no unfolding round_to_double_def a_def [symmetric]
    by (simp add: Let_def k_def [symmetric] e_def [symmetric] q y)
qed

lemma round_dyadic:
  assumes "\<bar>m\<bar> < 2 ^ 53" "- 1074 \<le> e0" "e0 \<le> 971"
  shows "round_to_double (of_int m * 2 powi e0) = Fin (of_int m * 2 powi e0)"
proof -
  consider "m = 0" | "0 < m" | "m < 0" by linarith
  then show ?thesis
  proof cases
    case 1
    then show ?thesis by simp
  next
    case 2
    with assms show ?thesis by (intro round_dyadic_pos) simp_all
  next
    case 3
    with assms have "round_to_double (of_int (- m) * 2 powi e0) = Fin (of_int (- m) * 2 powi e0)"
      by (intro round_dyadic_pos) simp_all
    then have "round_to_double (- (of_int m * 2 powi e0)) = Fin (- (of_int m * 2 powi e0))"
      by simp
    then show ?thesis
      by (cases "round_to_double (of_int m * 2 powi e0)") (simp_all add: round_to_double_neg)
  qed
qed

text \<open>
  Certificates for a rounding: \<open>x\<close> lies in the binade of exponent \<open>52 + e\<close>, and \<open>m\<close> is
  the integer within a half of \<open>x / 2 powi e\<close> or, when \<open>x / 2 powi e\<close> is half way between
  two integers, the even one of the two.
\<close>

lemma round_to_double_binade:
  assumes x: "0 < x" "2 powi (52 + e) \<le> x" "x < 2 powi (53 + e)"
    and e: "- 1074 \<le> e" "e \<le> 971"
    and r: "round_half_even (x / 2 powi e) = m" and m: "m < 2 ^ 53"
  shows "round_to_double x = Fin (of_int m * 2 powi e)"
proof -
  have k: "ilog2 x = 52 + e"
    using x by (intro ilog2_unique) (simp_all add: add.commute add.left_commute)
  have ee: "max (ilog2 x - 52) (- 1074) = e" using e k by simp
  have "real_of_int m < real_of_int (2 ^ 53)" using m by (simp only: of_int_less_iff)
  then have "of_int m * 2 powi e < 2 ^ 53 * (2::real) powi e" by simp
  also have "\<dots> = 2 powi (53 + e)" by (simp add: power_int_add)
  also have "\<dots> \<le> 2 powi 1024" using e by (intro power_int_increasing) simp_all
  finally have no: "\<not> 2 ^ 1024 \<le> of_int m * (2::real) powi e" by simp
  show ?thesis
    using x(1) no by (simp add: round_to_double_def Let_def ee r)
qed

lemma round_to_double_normal:
  assumes "0 < x" "2 powi (52 + e) \<le> x" "x < 2 powi (53 + e)"
    and "- 1074 \<le> e" "e \<le> 971"
    and "\<bar>x / 2 powi e - of_int m\<bar> < 1 / 2" "m < 2 ^ 53"
  shows "round_to_double x = Fin (of_int m * 2 powi e)"
  using assms by (intro round_to_double_binade round_half_even_near)

lemma round_to_double_tie_up:
  assumes "0 < x" "2 powi (52 + e) \<le> x" "x < 2 powi (53 + e)"
    and "- 1074 \<le> e" "e \<le> 971"
    and "x / 2 powi e = of_int m - 1 / 2" "even m" "m < 2 ^ 53"
  shows "round_to_double x = Fin (of_int m * 2 powi e)"
  using assms by (intro round_to_double_binade round_half_even_tie_up)

text \<open>The integers up to \<open>2 ^ 53\<close> in magnitude are doubles; so is every time value.\<close>

lemma is_double_of_int: "\<bar>n\<bar> \<le> 9007199254740992 \<Longrightarrow> is_double (of_int n)"
proof -
  assume n: "\<bar>n\<bar> \<le> 9007199254740992"
  show ?thesis
  proof (cases "\<bar>n\<bar> = 9007199254740992")
    case True
    then have "n = 2 ^ 52 * 2 \<or> n = - (2 ^ 52) * 2" by auto
    then have "real_of_int n = of_int (2 ^ 52) * 2 powi 1 \<or> real_of_int n = of_int (- (2 ^ 52)) * 2 powi 1"
      by auto
    moreover have "round_to_double (of_int (2 ^ 52) * 2 powi 1) = Fin (of_int (2 ^ 52) * 2 powi 1)"
      by (rule round_dyadic) simp_all
    moreover have "round_to_double (of_int (- (2 ^ 52)) * 2 powi 1) = Fin (of_int (- (2 ^ 52)) * 2 powi 1)"
      by (rule round_dyadic) simp_all
    ultimately show ?thesis unfolding is_double_def by metis
  next
    case False
    with n have "\<bar>n\<bar> < 2 ^ 53" by simp
    then have "round_to_double (of_int n * 2 powi 0) = Fin (of_int n * 2 powi 0)"
      by (rule round_dyadic) simp_all
    then show ?thesis by (simp add: is_double_def)
  qed
qed

lemma is_double_0 [simp]: "is_double 0"
  by (simp add: is_double_def)

lemma is_double_1 [simp]: "is_double 1"
  using is_double_of_int [of 1] by simp

lemma is_double_numeral:
  "numeral k \<le> (9007199254740992::int) \<Longrightarrow> is_double (numeral k)"
  using is_double_of_int [of "numeral k"] by simp

lemma is_double_half:
  "numeral k < (9007199254740992::int) \<Longrightarrow> is_double (numeral k / 2)"
  using round_dyadic [of "numeral k" "- 1"] by (simp add: is_double_def)

lemma is_double_neg [simp]: "is_double (- x) = is_double x"
  by (cases "round_to_double x") (auto simp: is_double_def round_to_double_neg)

lemma round_to_double_exact: "is_double x \<Longrightarrow> round_to_double x = Fin x"
  by (simp add: is_double_def)

text \<open>Rounding returns a double: rounding it again changes nothing.\<close>

lemma round_half_even_bounds:
  "\<lfloor>q\<rfloor> \<le> round_half_even q \<and> round_half_even q \<le> \<lfloor>q\<rfloor> + 1"
  by (simp add: round_half_even_def Let_def)

lemma round_to_double_idem_pos:
  assumes x: "0 < x" and r: "round_to_double x = Fin y"
  shows "round_to_double y = Fin y"
proof -
  define k where "k = ilog2 x"
  define e where "e = max (k - 52) (- 1074)"
  define q where "q = x / 2 powi e"
  define m where "m = round_half_even q"
  have lo: "2 powi k \<le> x" unfolding k_def by (rule ilog2_le [OF x])
  have hi: "x < 2 powi (k + 1)" unfolding k_def by (rule ilog2_less [OF x])
  from x r have y: "y = of_int m * 2 powi e" and no: "\<not> 2 ^ 1024 \<le> of_int m * (2::real) powi e"
    by (simp_all add: round_to_double_def Let_def k_def e_def q_def m_def split: if_splits)
  have qpos: "0 < q" using x by (simp add: q_def)
  have "(2::real) powi (k + 1) \<le> 2 powi (53 + e)"
    by (intro power_int_increasing) (simp_all add: e_def)
  with hi have "x < 2 powi (53 + e)" by simp
  then have "x < 2 ^ 53 * 2 powi e" by (simp add: power_int_add)
  then have q53: "q < 2 ^ 53" by (simp add: q_def field_simps)
  then have "\<lfloor>q\<rfloor> < 9007199254740992" by (simp add: floor_less_iff)
  with round_half_even_bounds [of q] have "m \<le> 9007199254740992" unfolding m_def by linarith
  then have m53: "m \<le> 2 ^ 53" by simp
  from qpos have "0 \<le> \<lfloor>q\<rfloor>" by simp
  with round_half_even_bounds [of q] have m0: "0 \<le> m" unfolding m_def by linarith
  have e_lo: "- 1074 \<le> e" by (simp add: e_def)
  have e_hi: "53 + e \<le> 1024 \<or> m \<le> 0"
  proof (rule ccontr)
    assume "\<not> (53 + e \<le> 1024 \<or> m \<le> 0)"
    then have big: "972 \<le> e" by simp
    then have ek: "e = k - 52" by (simp add: e_def split: if_splits)
    have "(2::real) powi (52 + e) \<le> 2 powi k" using ek by simp
    with lo have "2 powi (52 + e) \<le> x" by simp
    then have "2 ^ 52 * 2 powi e \<le> x" by (simp add: power_int_add)
    then have "2 ^ 52 \<le> q" by (simp add: q_def field_simps)
    then have "4503599627370496 \<le> \<lfloor>q\<rfloor>" by (simp add: le_floor_iff)
    with round_half_even_bounds [of q] have "4503599627370496 \<le> m" unfolding m_def by linarith
    then have "2 ^ 52 \<le> m" by simp
    then have "real_of_int (2 ^ 52) \<le> real_of_int m" by (simp only: of_int_le_iff)
    then have "(2::real) powi 52 \<le> of_int m" by simp
    then have A: "(2::real) powi 52 * 2 powi e \<le> of_int m * 2 powi e"
      by (intro mult_right_mono) simp_all
    have B: "(2::real) powi 1024 \<le> 2 powi (52 + e)"
      using big by (intro power_int_increasing) simp_all
    have C: "(2::real) powi (52 + e) = 2 powi 52 * 2 powi e"
      by (rule power_int_add) simp
    from B [unfolded C] A have "(2::real) powi 1024 \<le> of_int m * 2 powi e"
      by (rule order_trans)
    moreover have "(2::real) powi 1024 = 2 ^ 1024"
      by (simp only: power_int_numeral)
    ultimately have "(2::real) ^ 1024 \<le> of_int m * 2 powi e"
      by (simp only:)
    with no show False by simp
  qed
  show ?thesis
  proof (cases "m < 2 ^ 53")
    case True
    show ?thesis
    proof (cases "m = 0")
      case True
      with y show ?thesis by simp
    next
      case False
      with e_hi m0 have "e \<le> 971" by simp
      with True m0 e_lo show ?thesis unfolding y by (intro round_dyadic) simp_all
    qed
  next
    case False
    with m53 have m: "m = 2 ^ 53" by simp
    have "e \<noteq> 971"
    proof
      assume "e = 971"
      with m no show False by (simp add: power_int_add [symmetric])
    qed
    with e_hi m have e970: "e \<le> 970" by simp
    have "y = of_int (2 ^ 52) * 2 powi (e + 1)"
      unfolding y m by (simp add: power_int_add)
    moreover have "round_to_double (of_int (2 ^ 52) * 2 powi (e + 1)) = Fin (of_int (2 ^ 52) * 2 powi (e + 1))"
      using e_lo e970 by (intro round_dyadic) simp_all
    ultimately show ?thesis by simp
  qed
qed

lemma round_to_double_idem:
  assumes "round_to_double x = Fin y"
  shows "round_to_double y = Fin y"
proof -
  consider "x = 0" | "0 < x" | "x < 0" by linarith
  then show ?thesis
  proof cases
    case 1
    with assms show ?thesis by simp
  next
    case 2
    then show ?thesis using assms by (rule round_to_double_idem_pos)
  next
    case 3
    from assms have "round_to_double (- x) = Fin (- y)"
      by (simp add: round_to_double_neg)
    with 3 have "round_to_double (- y) = Fin (- y)"
      by (intro round_to_double_idem_pos [of "- x"]) simp_all
    then show ?thesis
      by (cases "round_to_double y") (simp_all add: round_to_double_neg)
  qed
qed

lemma is_double_round: "round_to_double x = Fin y \<Longrightarrow> is_double y"
  unfolding is_double_def by (rule round_to_double_idem)

lemma is_double_as_double: "as_double v = Fin y \<Longrightarrow> is_double y"
  by (cases v) (simp_all add: is_double_round)

text \<open>An operation on doubles whose exact result is a double returns it.\<close>

lemma plus_exact:
  "is_double x \<Longrightarrow> is_double y \<Longrightarrow> is_double (x + y) \<Longrightarrow> Fin x + Fin y = Fin (x + y)"
  by (simp add: plus_jsnum_def is_double_def)

lemma minus_exact:
  "is_double x \<Longrightarrow> is_double y \<Longrightarrow> is_double (x - y) \<Longrightarrow> Fin x - Fin y = Fin (x - y)"
  using is_double_neg [of y] by (simp add: minus_jsnum_def plus_jsnum_def is_double_def)

lemma times_exact:
  "is_double x \<Longrightarrow> is_double y \<Longrightarrow> is_double (x * y) \<Longrightarrow> Fin x * Fin y = Fin (x * y)"
  by (simp add: times_jsnum_def is_double_def)

lemma new_Date_exact:
  "is_double x \<Longrightarrow> \<bar>x\<bar> \<le> 8640000000000000 \<Longrightarrow> new_Date (Fin x) = Date (trunc x)"
  by (simp add: new_Date_def is_double_def)

lemmas exact_arith = plus_exact minus_exact times_exact new_Date_exact is_double_numeral
  is_double_half trunc_def

text \<open>
  Finite numbers: a number minus itself is 0, 0 times a finite number is 0, and adding 0
  rounds nothing.
\<close>

lemma isFinite_iff: "isFinite v = (\<exists>x. as_double v = Fin x)"
  by (cases "as_double v") (simp_all add: isFinite_def)

lemma isFinite_double: "is_double x \<Longrightarrow> isFinite (Fin x)"
  by (simp add: isFinite_def is_double_def)

lemma as_double_double: "is_double x \<Longrightarrow> as_double (Fin x) = Fin x"
  by (simp add: is_double_def)

lemma as_double_neg: "as_double (- v) = - as_double v"
  by (cases v) (simp_all add: round_to_double_neg)

lemma minus_self: "isFinite b \<Longrightarrow> b - b = Fin 0"
  by (auto simp: isFinite_iff minus_jsnum_def plus_jsnum_def as_double_neg)

lemma zero_times: "isFinite r \<Longrightarrow> Fin 0 * r = Fin 0"
  by (auto simp: isFinite_iff times_jsnum_def)

lemma plus_zero: "d + Fin 0 = as_double d"
proof (cases "as_double d")
  case (Fin y)
  then have "is_double y" by (rule is_double_as_double)
  with Fin show ?thesis by (simp add: plus_jsnum_def is_double_def)
qed (simp_all add: plus_jsnum_def)

lemma is_double_one_half: "is_double (1 / 2)"
  using round_dyadic [of 1 "- 1"] by (simp add: is_double_def)

lemma is_double_dyadic:
  "\<bar>m\<bar> < 2 ^ 53 \<Longrightarrow> - 1074 \<le> e \<Longrightarrow> e \<le> 971 \<Longrightarrow> is_double (of_int m * 2 powi e)"
  by (simp add: is_double_def round_dyadic)




lemma new_Date_int: "\<bar>t\<bar> \<le> 8640000000000000 \<Longrightarrow> new_Date (Fin (of_int t)) = Date t"
  using new_Date_exact [of "of_int t"] is_double_of_int [of t] by (simp add: trunc_def)



subsection \<open>The numbers of the examples\<close>

text \<open>
  The doubles that the literals \<open>0.57\<close>, \<open>1.1\<close>, \<open>0.9999\<close> and \<open>2.3\<close> denote, and the sums
  and products of the examples that are not exact: \<open>100 * 0.57\<close> is \<open>56.99999999999999\<close>,
  \<open>50 * 0.57\<close> is \<open>28.499999999999996\<close>, \<open>1000 * 1.1\<close> is \<open>1100\<close>, \<open>16 * 1.1\<close> is
  \<open>17.6\<close> (to the last digit printed), \<open>1700000000000 + 0.9999\<close> is \<open>1700000000001\<close>,
  \<open>90 * 2.3\<close> is \<open>206.99999999999997\<close> and \<open>90 + (2.3 - 1) * 90\<close> is \<open>207\<close>.
\<close>

lemma round_057: "round_to_double (57 / 100) = Fin (5134103575202365 / 9007199254740992)"
  using round_to_double_normal [of "57 / 100" "- 53" 5134103575202365]
  by (simp add: power_int_minus_divide)

lemma round_11: "round_to_double (11 / 10) = Fin (2476979795053773 / 2251799813685248)"
  using round_to_double_normal [of "11 / 10" "- 52" 4953959590107546]
  by (simp add: power_int_minus_divide)

lemma round_09999: "round_to_double (9999 / 10000) = Fin (4503149267407759 / 4503599627370496)"
  using round_to_double_normal [of "9999 / 10000" "- 53" 9006298534815518]
  by (simp add: power_int_minus_divide)

lemma double_100_057: "is_double (8022036836253695 / 140737488355328)"
  using is_double_dyadic [of 8022036836253695 "- 47"] by (simp add: power_int_minus_divide)


lemma double_16_11: "is_double (2476979795053773 / 140737488355328)"
  using is_double_dyadic [of 2476979795053773 "- 47"] by (simp add: power_int_minus_divide)

lemma double_11_minus_1: "is_double (225179981368525 / 2251799813685248)"
  using is_double_dyadic [of 225179981368525 "- 51"] by (simp add: power_int_minus_divide)

lemma double_16_01: "is_double (225179981368525 / 140737488355328)"
  using is_double_dyadic [of 225179981368525 "- 47"] by (simp add: power_int_minus_divide)

lemma double_09999: "is_double (4503149267407759 / 4503599627370496)"
  using is_double_dyadic [of 4503149267407759 "- 52"] by (simp add: power_int_minus_divide)

lemma times_100_057: "Fin 100 * Fin (57 / 100) = Fin (8022036836253695 / 140737488355328)"
  using round_to_double_normal [of "100 * (5134103575202365 / 9007199254740992)" "- 47" 8022036836253695]
  by (simp add: times_jsnum_def round_057 round_to_double_exact is_double_numeral power_int_minus_divide)


lemma times_1000_11: "Fin 1000 * Fin (11 / 10) = Fin 1100"
  using round_to_double_normal [of "1000 * (2476979795053773 / 2251799813685248)" "- 42" 4837851162214400]
  by (simp add: times_jsnum_def round_11 round_to_double_exact is_double_numeral power_int_minus_divide)

lemma times_16_11: "Fin 16 * Fin (11 / 10) = Fin (2476979795053773 / 140737488355328)"
  by (simp add: times_jsnum_def round_11 round_to_double_exact is_double_numeral double_16_11)

lemma minus_11_1: "Fin (11 / 10) - Fin 1 = Fin (225179981368525 / 2251799813685248)"
  by (simp add: minus_jsnum_def plus_jsnum_def round_11 round_to_double_exact double_11_minus_1)

lemma times_1_09999: "Fin 1 * Fin (9999 / 10000) = Fin (4503149267407759 / 4503599627370496)"
  by (simp add: times_jsnum_def round_09999 round_to_double_exact double_09999)

lemma plus_09999: "Fin 1700000000000 + Fin (4503149267407759 / 4503599627370496) = Fin 1700000000001"
  using round_to_double_normal [of "1700000000000 + 4503149267407759 / 4503599627370496" "- 12" 6963200000004096]
  by (simp add: plus_jsnum_def round_to_double_exact is_double_numeral double_09999 power_int_minus_divide)

lemma round_23: "round_to_double (23 / 10) = Fin (2589569785738035 / 1125899906842624)"
  using round_to_double_normal [of "23 / 10" "- 51" 5179139571476070]
  by (simp add: power_int_minus_divide)

lemma double_23_minus_1: "is_double (1463669878895411 / 1125899906842624)"
  using is_double_dyadic [of 1463669878895411 "- 50"] by (simp add: power_int_minus_divide)

lemma double_90_23: "is_double (7283165022388223 / 35184372088832)"
  using is_double_dyadic [of 7283165022388223 "- 45"] by (simp add: power_int_minus_divide)

lemma double_90_13: "is_double (8233143068786687 / 70368744177664)"
  using is_double_dyadic [of 8233143068786687 "- 46"] by (simp add: power_int_minus_divide)

lemma times_90_23: "Fin 90 * Fin (23 / 10) = Fin (7283165022388223 / 35184372088832)"
  using round_to_double_normal [of "90 * (2589569785738035 / 1125899906842624)" "- 45" 7283165022388223]
  by (simp add: times_jsnum_def round_23 round_to_double_exact is_double_numeral power_int_minus_divide)

lemma minus_23_1: "Fin (23 / 10) - Fin 1 = Fin (1463669878895411 / 1125899906842624)"
  by (simp add: minus_jsnum_def plus_jsnum_def round_23 round_to_double_exact double_23_minus_1)

lemma times_13_90: "Fin (1463669878895411 / 1125899906842624) * Fin 90 = Fin (8233143068786687 / 70368744177664)"
  using round_to_double_normal [of "1463669878895411 / 1125899906842624 * 90" "- 46" 8233143068786687]
  by (simp add: times_jsnum_def round_to_double_exact is_double_numeral double_23_minus_1 power_int_minus_divide)

lemma plus_90_117: "Fin 90 + Fin (8233143068786687 / 70368744177664) = Fin 207"
  using round_to_double_tie_up [of "90 + 8233143068786687 / 70368744177664" "- 45" 7283165022388224]
  by (simp add: plus_jsnum_def round_to_double_exact is_double_numeral double_90_13 power_int_minus_divide)

section \<open>The time mapping: properties\<close>

text \<open>
  C1. For all numbers, \<open>computeMercurialTime\<close> returns
  \<open>baseDisplayMs + (nowRealMs - baseRealMs) * rate\<close>, each operation being that of
  JavaScript (the exact result, rounded to a double). When \<open>nowRealMs\<close> is \<open>baseRealMs\<close>,
  a finite number, and the rate is finite, whatever its sign, the result is \<open>baseDisplayMs\<close>
  (the double that it is): the elapsed time is 0, its product with the rate is 0, and
  adding 0 rounds nothing. And when no operation has to round, the result is the value of
  the formula over the reals.
\<close>

theorem computeMercurialTime_formula:
  "computeMercurialTime b d n r = d + (n - b) * r
   \<and> (isFinite b \<and> isFinite r \<longrightarrow> computeMercurialTime b d b r = as_double d)
   \<and> (is_double d' \<longrightarrow> as_double (Fin d') = Fin d')
   \<and> (is_double b' \<and> is_double d' \<and> is_double n' \<and> is_double r'
        \<and> is_double (n' - b') \<and> is_double ((n' - b') * r')
        \<and> is_double (d' + (n' - b') * r') \<longrightarrow>
        computeMercurialTime (Fin b') (Fin d') (Fin n') (Fin r') = Fin (d' + (n' - b') * r'))"
proof (intro conjI impI)
  show "computeMercurialTime b d n r = d + (n - b) * r"
    by (simp add: computeMercurialTime_def)
next
  assume "isFinite b \<and> isFinite r"
  then show "computeMercurialTime b d b r = as_double d"
    by (simp add: computeMercurialTime_def minus_self zero_times plus_zero)
next
  assume "is_double d'"
  then show "as_double (Fin d') = Fin d'"
    by (rule as_double_double)
next
  assume a: "is_double b' \<and> is_double d' \<and> is_double n' \<and> is_double r'
        \<and> is_double (n' - b') \<and> is_double ((n' - b') * r')
        \<and> is_double (d' + (n' - b') * r')"
  then show "computeMercurialTime (Fin b') (Fin d') (Fin n') (Fin r') = Fin (d' + (n' - b') * r')"
    by (simp add: computeMercurialTime_def minus_exact times_exact plus_exact)
qed

text \<open>
  The cases of the repository's tests: no elapsed time, a rate of 0.5, and the rate 1.1
  over 1000 ms, where the product rounds to 1100. With the rate 0.57 over 100 ms the
  result is the double below 57, which \<open>new Date\<close> truncates to 56.
\<close>

theorem computeMercurialTime_formula_witness:
  "isFinite (Fin 1000) \<and> isFinite (Fin (- 2)) \<and> is_double 5000
   \<and> computeMercurialTime (Fin 1000) (Fin 5000) (Fin 1000) (Fin (- 2)) = Fin 5000
   \<and> is_double 1000 \<and> is_double 3000 \<and> is_double 0.5
   \<and> is_double (3000 - 1000) \<and> is_double ((3000 - 1000) * 0.5)
   \<and> is_double (5000 + (3000 - 1000) * 0.5)
   \<and> computeMercurialTime (Fin 1000) (Fin 5000) (Fin 3000) (Fin 0.5) = Fin 6000
   \<and> computeMercurialTime (Fin 0) (Fin 0) (Fin 1000) (Fin 1.1) = Fin 1100
   \<and> new_Date (computeMercurialTime (Fin 0) (Fin 0) (Fin 100) (Fin 0.57)) = Date 56"
proof -
  have f: "isFinite (Fin 1000) \<and> isFinite (Fin (- 2))"
    by (simp add: isFinite_double is_double_numeral)
  have d: "is_double 1000 \<and> is_double 5000 \<and> is_double 3000 \<and> is_double 0.5
    \<and> is_double (3000 - 1000) \<and> is_double ((3000 - 1000) * 0.5)
    \<and> is_double (5000 + (3000 - 1000) * 0.5)"
    by (simp add: is_double_numeral is_double_one_half)
  note th = computeMercurialTime_formula [of "Fin 1000" "Fin 5000" "Fin 1000" "Fin (- 2)"
      5000 1000 3000 "0.5"]
  from th f have "computeMercurialTime (Fin 1000) (Fin 5000) (Fin 1000) (Fin (- 2))
      = as_double (Fin 5000)"
    by blast
  moreover from th d have "as_double (Fin 5000) = Fin 5000"
    by blast
  ultimately have a: "computeMercurialTime (Fin 1000) (Fin 5000) (Fin 1000) (Fin (- 2)) = Fin 5000"
    by simp
  from th d have "computeMercurialTime (Fin 1000) (Fin 5000) (Fin 3000) (Fin 0.5)
             = Fin (5000 + (3000 - 1000) * 0.5)"
    by blast
  then have b: "computeMercurialTime (Fin 1000) (Fin 5000) (Fin 3000) (Fin 0.5) = Fin 6000"
    by simp
  from computeMercurialTime_formula [of "Fin 0" "Fin 0" "Fin 1000" "Fin 1.1" 0 0 0 0]
  have "computeMercurialTime (Fin 0) (Fin 0) (Fin 1000) (Fin 1.1)
              = Fin 0 + (Fin 1000 - Fin 0) * Fin 1.1"
    by blast
  then have r: "computeMercurialTime (Fin 0) (Fin 0) (Fin 1000) (Fin 1.1) = Fin 1100"
    by (simp add: exact_arith times_1000_11)
  from computeMercurialTime_formula [of "Fin 0" "Fin 0" "Fin 100" "Fin 0.57" 0 0 0 0]
  have "computeMercurialTime (Fin 0) (Fin 0) (Fin 100) (Fin 0.57)
              = Fin 0 + (Fin 100 - Fin 0) * Fin 0.57"
    by blast
  then have s: "new_Date (computeMercurialTime (Fin 0) (Fin 0) (Fin 100) (Fin 0.57)) = Date 56"
    by (simp add: exact_arith times_100_057 double_100_057)
  from f d a b r s show ?thesis by blast
qed

section \<open>The time store: invariants\<close>

lemmas loop_defs = startLoop_def stopLoop_def requestAnimationFrame_def cancelAnimationFrame_def

lemmas op_defs = setRate_def reset_def start_def stop_def destroy_def frame_def frame_calling_def
  tick_def do_calls_def set_store_def

lemmas store_defs = createMercurialTimeStore_def run_def subscribe_def computeState_def
  computeMercurialTime_def op_defs loop_defs

lemma run_Nil: "run e [] = e"
  by (simp add: run_def)

lemma run_Cons: "run e (ev # evs) = run (step e ev) evs"
  by (simp add: run_def)

text \<open>The two anchors are set together, so they stay equal.\<close>

lemma anchors_create:
  "baseRealMs (createMercurialTimeStore r t0 t1) = baseDisplayMs (createMercurialTimeStore r t0 t1)"
  by (simp add: createMercurialTimeStore_def loop_defs Let_def)

lemma anchors_step:
  "baseRealMs e = baseDisplayMs e \<Longrightarrow> baseRealMs (step e ev) = baseDisplayMs (step e ev)"
  by (cases ev) (auto simp: op_defs loop_defs Let_def split: option.splits prod.splits)

lemma anchors_run:
  "baseRealMs e = baseDisplayMs e \<Longrightarrow> baseRealMs (run e evs) = baseDisplayMs (run e evs)"
  by (induction evs arbitrary: e) (simp_all add: run_Nil run_Cons anchors_step)

lemma anchors_do_call:
  "baseRealMs e = baseDisplayMs e \<Longrightarrow> baseRealMs (do_call e c) = baseDisplayMs (do_call e c)"
  by (cases c) (auto simp: op_defs loop_defs Let_def split: option.splits prod.splits)

lemma anchors_do_calls:
  "baseRealMs e = baseDisplayMs e \<Longrightarrow> baseRealMs (do_calls e cs) = baseDisplayMs (do_calls e cs)"
  unfolding do_calls_def by (induction cs arbitrary: e) (simp_all add: anchors_do_call)

lemma anchors_frame_calling:
  assumes "baseRealMs e = baseDisplayMs e"
  shows "baseRealMs (frame_calling i now cs e) = baseDisplayMs (frame_calling i now cs e)"
proof -
  let ?e1 = "set_store (computeState (e\<lparr> pending := removeAll i (pending e) \<rparr>) now)
               (e\<lparr> pending := removeAll i (pending e) \<rparr>)"
  from assms have "baseRealMs ?e1 = baseDisplayMs ?e1"
    by (simp add: set_store_def)
  then have "baseRealMs (do_calls ?e1 cs) = baseDisplayMs (do_calls ?e1 cs)"
    by (rule anchors_do_calls)
  with assms show ?thesis
    by (simp add: frame_calling_def tick_def requestAnimationFrame_def Let_def)
qed

text \<open>What each operation does to the anchors.\<close>

lemma anchors_ops:
  "baseRealMs (createMercurialTimeStore r t0 t1) = t0
   \<and> baseDisplayMs (createMercurialTimeStore r t0 t1) = t0
   \<and> baseRealMs (setRate r' now t e) = now \<and> baseDisplayMs (setRate r' now t e) = now
   \<and> baseRealMs (reset now t e) = now \<and> baseDisplayMs (reset now t e) = now
   \<and> baseRealMs (start t e) = baseRealMs e \<and> baseDisplayMs (start t e) = baseDisplayMs e
   \<and> baseRealMs (stop t e) = baseRealMs e \<and> baseDisplayMs (stop t e) = baseDisplayMs e
   \<and> baseRealMs (destroy e) = baseRealMs e \<and> baseDisplayMs (destroy e) = baseDisplayMs e
   \<and> baseRealMs (frame i now e) = baseRealMs e \<and> baseDisplayMs (frame i now e) = baseDisplayMs e"
  by (simp add: createMercurialTimeStore_def op_defs loop_defs Let_def split: option.splits)

text \<open>
  The stored snapshot was computed from the variables as they are now: whatever changes a
  variable that \<open>computeState\<close> reads also calls \<open>set\<close>.
\<close>

lemma stored_create:
  "storeValue (createMercurialTimeStore r t0 t1)
     = computeState (createMercurialTimeStore r t0 t1) t1"
  by (simp add: createMercurialTimeStore_def loop_defs Let_def computeState_def)

lemma stored_step:
  "\<exists>t. storeValue e = computeState e t \<Longrightarrow> \<exists>t. storeValue (step e ev) = computeState (step e ev) t"
  by (cases ev)
     (auto simp: op_defs loop_defs Let_def computeState_def split: option.splits prod.splits)

lemma stored_run:
  "\<exists>t. storeValue e = computeState e t \<Longrightarrow> \<exists>t. storeValue (run e evs) = computeState (run e evs) t"
  by (induction evs arbitrary: e) (simp_all add: run_Nil run_Cons stored_step)














text \<open>A stopped store keeps its snapshot, anchors and rate through frames, \<open>stop\<close> and \<open>destroy\<close>.\<close>

lemma stop_stopped:
  "MercurialTimeStore.isRunning e \<Longrightarrow>
   \<not> MercurialTimeStore.isRunning (stop t e)
   \<and> \<not> MercurialTimeState.isRunning (storeValue (stop t e))"
  by (simp add: stop_def set_store_def computeState_def Let_def loop_defs split: option.splits)


lemma frozen_step:
  "\<not> MercurialTimeStore.isRunning e \<Longrightarrow> frozen ev \<Longrightarrow>
   \<not> MercurialTimeStore.isRunning (step e ev) \<and> storeValue (step e ev) = storeValue e
   \<and> baseRealMs (step e ev) = baseRealMs e \<and> baseDisplayMs (step e ev) = baseDisplayMs e
   \<and> MercurialTimeStore.rate (step e ev) = MercurialTimeStore.rate e"
  by (cases ev) (auto simp: op_defs loop_defs split: option.splits)

lemma frozen_run:
  "\<not> MercurialTimeStore.isRunning e \<Longrightarrow> list_all frozen evs \<Longrightarrow>
   \<not> MercurialTimeStore.isRunning (run e evs) \<and> storeValue (run e evs) = storeValue e
   \<and> baseRealMs (run e evs) = baseRealMs e \<and> baseDisplayMs (run e evs) = baseDisplayMs e
   \<and> MercurialTimeStore.rate (run e evs) = MercurialTimeStore.rate e"
proof (induction evs arbitrary: e)
  case Nil
  then show ?case by (simp add: run_Nil)
next
  case (Cons ev evs)
  from Cons.prems have f: "frozen ev" and r: "list_all frozen evs" by simp_all
  note s = frozen_step [OF Cons.prems(1) f]
  from s have n: "\<not> MercurialTimeStore.isRunning (step e ev)" by simp
  from Cons.IH [OF n r] s show ?case by (simp add: run_Cons)
qed

lemma not_start_step:
  "\<not> MercurialTimeStore.isRunning e \<Longrightarrow> \<not> MercurialTimeState.isRunning (storeValue e) \<Longrightarrow>
   \<not> is_Start ev \<Longrightarrow>
   \<not> MercurialTimeStore.isRunning (step e ev)
   \<and> \<not> MercurialTimeState.isRunning (storeValue (step e ev))"
  by (cases ev) (auto simp: op_defs loop_defs computeState_def Let_def split: option.splits)

lemma not_start_run:
  "\<not> MercurialTimeStore.isRunning e \<Longrightarrow> \<not> MercurialTimeState.isRunning (storeValue e) \<Longrightarrow>
   list_all (\<lambda>ev. \<not> is_Start ev) evs \<Longrightarrow>
   \<not> MercurialTimeState.isRunning (storeValue (run e evs))"
proof (induction evs arbitrary: e)
  case Nil
  then show ?case by (simp add: run_Nil)
next
  case (Cons ev evs)
  from Cons.prems have f: "\<not> is_Start ev" and r: "list_all (\<lambda>ev. \<not> is_Start ev) evs"
    by simp_all
  note s = not_start_step [OF Cons.prems(1,2) f]
  from Cons.IH [OF conjunct1 [OF s] conjunct2 [OF s] r] show ?case by (simp add: run_Cons)
qed


section \<open>The time store: properties\<close>

text \<open>
  C2 (as stated, refuted). The claim has every read of the store return a snapshot
  computed at the instant of the read. The store is a \<open>writable\<close>: a read returns the value
  it holds. A store created at instant 1000 and read at instant 2000, no frame having run
  in between, still shows the snapshot of instant 1000.
\<close>

theorem subscribe_stale_counterexample:
  "subscribe (createMercurialTimeStore (Fin 2) 1000 1000)
     \<noteq> computeState (createMercurialTimeStore (Fin 2) 1000 1000) 2000"
  by (simp add: store_defs Let_def exact_arith)

text \<open>
  C2 (amended). A read returns the snapshot the store holds, which does not depend on the
  instant of the read: the one computed at creation, replaced by each later snapshot that
  \<open>setRate\<close>, \<open>reset\<close>, an effective \<open>start\<close> or \<open>stop\<close>, or a frame tick of a running store
  computes from the anchors, rate and running flag it leaves, against the clock read it
  makes. Every other event leaves the held snapshot, and the list of published ones, as
  they were.
\<close>

theorem subscribe_returns_last_published:
  "subscribe (createMercurialTimeStore r t0 t1)
     = computeState (createMercurialTimeStore r t0 t1) t1
   \<and> subscribe (step e ev) =
       (case published_at e ev of
          None \<Rightarrow> subscribe e
        | Some t \<Rightarrow> computeState (step e ev) t)
   \<and> published (step e ev) =
       (case published_at e ev of
          None \<Rightarrow> published e
        | Some t \<Rightarrow> published e @ [computeState (step e ev) t])"
proof (intro conjI)
  show "subscribe (createMercurialTimeStore r t0 t1)
          = computeState (createMercurialTimeStore r t0 t1) t1"
    by (simp add: subscribe_def stored_create)
  show "subscribe (step e ev) =
       (case published_at e ev of
          None \<Rightarrow> subscribe e
        | Some t \<Rightarrow> computeState (step e ev) t)"
    by (cases ev)
       (auto simp: subscribe_def op_defs loop_defs Let_def computeState_def
             split: option.splits prod.splits)
  show "published (step e ev) =
       (case published_at e ev of
          None \<Rightarrow> published e
        | Some t \<Rightarrow> published e @ [computeState (step e ev) t])"
    by (cases ev)
       (auto simp: op_defs loop_defs Let_def computeState_def split: option.splits prod.splits)
qed




text \<open>
  C4 (as stated, refuted). \<open>setRate\<close> reads the clock twice, for the anchors and again in
  \<open>computeState()\<close>. When the clock advances between the two reads (1000, then 1001) and
  the rate is 3, the snapshot shows display time 1003 and real time 1001.
\<close>

theorem setRate_clock_advance_counterexample:
  "displayTime (subscribe (setRate (Fin 3) 1000 1001 (createMercurialTimeStore (Fin 1) 0 0)))
     \<noteq> realTime (subscribe (setRate (Fin 3) 1000 1001 (createMercurialTimeStore (Fin 1) 0 0)))"
  by (simp add: store_defs Let_def exact_arith)

text \<open>
  C4 (amended). After \<open>setRate(r)\<close> the snapshot has rate \<open>r\<close> and the real time of the second
  clock read \<open>t\<close>; its display time is \<open>new Date(now + (t - now) * r)\<close>, in the arithmetic
  of JavaScript, \<open>now\<close> being the first read; and when both reads return the same instant
  (a time value) and \<open>r\<close> is finite, display time and real time are that instant.
\<close>

theorem setRate_snapshot:
  "MercurialTimeState.rate (subscribe (setRate r now t e)) = r
   \<and> realTime (subscribe (setRate r now t e)) = new_Date (Fin (of_int t))
   \<and> displayTime (subscribe (setRate r now t e))
       = new_Date (Fin (of_int now) + (Fin (of_int t) - Fin (of_int now)) * r)
   \<and> (\<bar>now\<bar> \<le> 8640000000000000 \<and> isFinite r \<longrightarrow>
        displayTime (subscribe (setRate r now now e)) = Date now
        \<and> realTime (subscribe (setRate r now now e)) = Date now)"
proof (intro conjI impI)
  assume a: "\<bar>now\<bar> \<le> 8640000000000000 \<and> isFinite r"
  then have n: "is_double (of_int now)"
    by (intro is_double_of_int) simp
  then have f: "isFinite (Fin (of_int now))"
    by (rule isFinite_double)
  from n have "as_double (Fin (of_int now)) = Fin (of_int now)"
    by (rule as_double_double)
  with a f have "Fin (of_int now) + (Fin (of_int now) - Fin (of_int now)) * r = Fin (of_int now)"
    by (simp add: minus_self zero_times plus_zero)
  moreover from a have "new_Date (Fin (of_int now)) = Date now"
    by (intro new_Date_int) simp
  ultimately show "displayTime (subscribe (setRate r now now e)) = Date now"
    and "realTime (subscribe (setRate r now now e)) = Date now"
    by (simp_all add: subscribe_def setRate_def set_store_def computeState_def
          computeMercurialTime_def Let_def)
qed (simp_all add: subscribe_def setRate_def set_store_def computeState_def
       computeMercurialTime_def Let_def)

text \<open>
  Both reads at instant 1000 with the rate 1.1; and the rate 0.9999 with the reads
  1700000000000 and 1700000000001, where the sum rounds up to the second read.
\<close>

theorem setRate_snapshot_witness:
  "\<bar>1000\<bar> \<le> (8640000000000000::int) \<and> isFinite (Fin 1.1)
   \<and> displayTime (subscribe (setRate (Fin 1.1) 1000 1000 (createMercurialTimeStore (Fin 1) 0 0)))
       = Date 1000
   \<and> realTime (subscribe (setRate (Fin 1.1) 1000 1000 (createMercurialTimeStore (Fin 1) 0 0)))
       = Date 1000
   \<and> displayTime (subscribe (setRate (Fin 0.9999) 1700000000000 1700000000001
         (createMercurialTimeStore (Fin 1) 0 0))) = Date 1700000000001
   \<and> realTime (subscribe (setRate (Fin 0.9999) 1700000000000 1700000000001
         (createMercurialTimeStore (Fin 1) 0 0))) = Date 1700000000001"
proof -
  let ?c = "createMercurialTimeStore (Fin 1) 0 0"
  have h: "\<bar>1000\<bar> \<le> (8640000000000000::int) \<and> isFinite (Fin 1.1)"
    by (simp add: isFinite_def round_11)
  from setRate_snapshot [of "Fin 1.1" 1000 1000 ?c] h
  have a: "displayTime (subscribe (setRate (Fin 1.1) 1000 1000 ?c)) = Date 1000
    \<and> realTime (subscribe (setRate (Fin 1.1) 1000 1000 ?c)) = Date 1000"
    by blast
  from setRate_snapshot [of "Fin 0.9999" 1700000000000 1700000000001 ?c]
  have "displayTime (subscribe (setRate (Fin 0.9999) 1700000000000 1700000000001 ?c))
       = new_Date (Fin (of_int 1700000000000)
           + (Fin (of_int 1700000000001) - Fin (of_int 1700000000000)) * Fin 0.9999)"
    and "realTime (subscribe (setRate (Fin 0.9999) 1700000000000 1700000000001 ?c))
       = new_Date (Fin (of_int 1700000000001))"
    by blast+
  then have b: "displayTime (subscribe (setRate (Fin 0.9999) 1700000000000 1700000000001 ?c))
       = Date 1700000000001
    \<and> realTime (subscribe (setRate (Fin 0.9999) 1700000000000 1700000000001 ?c))
       = Date 1700000000001"
    by (simp add: exact_arith times_1_09999 plus_09999)
  from h a b show ?thesis by blast
qed

text \<open>
  C5 (as stated, refuted). The claim freezes the display time of every read until
  \<open>start()\<close> is called. \<open>reset\<close> (and \<open>setRate\<close>) on a stopped store re-anchor it and publish
  a snapshot with a new display time.
\<close>

theorem stop_then_reset_counterexample:
  "displayTime (subscribe (run (stop 1000 (createMercurialTimeStore (Fin 2) 0 0)) [Reset 5000 5000]))
     \<noteq> displayTime (subscribe (stop 1000 (createMercurialTimeStore (Fin 2) 0 0)))"
  by (simp add: store_defs Let_def exact_arith)

text \<open>
  C5 (amended). After \<open>stop()\<close> on a running store the snapshot has \<open>isRunning = false\<close>;
  through any frames and further \<open>stop\<close> and \<open>destroy\<close> calls, whatever their clock reads,
  every read returns that same snapshot; and until \<open>start()\<close> is called every read has
  \<open>isRunning = false\<close>.
\<close>

theorem stop_freezes_snapshot:
  "MercurialTimeStore.isRunning e \<longrightarrow>
     \<not> MercurialTimeState.isRunning (subscribe (stop t e))
     \<and> (list_all frozen evs \<longrightarrow> subscribe (run (stop t e) evs) = subscribe (stop t e))
     \<and> (list_all (\<lambda>ev. \<not> is_Start ev) evs \<longrightarrow>
          \<not> MercurialTimeState.isRunning (subscribe (run (stop t e) evs)))"
  using stop_stopped [of e t] frozen_run [of "stop t e" evs] not_start_run [of "stop t e" evs]
  by (auto simp: subscribe_def)

text \<open>A store of rate 2 stopped at instant 1000 shows display time 2000 through later frames, \<open>stop\<close> and \<open>destroy\<close>.\<close>

theorem stop_freezes_snapshot_witness:
  "MercurialTimeStore.isRunning (createMercurialTimeStore (Fin 2) 0 0)
   \<and> list_all frozen [Frame 1 2000, Stop 3000, Destroy, Frame 2 4000]
   \<and> subscribe (run (stop 1000 (createMercurialTimeStore (Fin 2) 0 0))
        [Frame 1 2000, Stop 3000, Destroy, Frame 2 4000])
     = subscribe (stop 1000 (createMercurialTimeStore (Fin 2) 0 0))
   \<and> displayTime (subscribe (stop 1000 (createMercurialTimeStore (Fin 2) 0 0))) = Date 2000
   \<and> \<not> MercurialTimeState.isRunning (subscribe (run (stop 1000 (createMercurialTimeStore (Fin 2) 0 0))
        [Frame 1 2000, Stop 3000, Destroy, Frame 2 4000]))"
proof -
  have r: "MercurialTimeStore.isRunning (createMercurialTimeStore (Fin 2) 0 0)"
    by (simp add: store_defs Let_def exact_arith)
  have f: "list_all frozen [Frame 1 2000, Stop 3000, Destroy, Frame 2 4000]"
    by simp
  have n: "list_all (\<lambda>ev. \<not> is_Start ev) [Frame 1 2000, Stop 3000, Destroy, Frame 2 4000]"
    by simp
  have d: "displayTime (subscribe (stop 1000 (createMercurialTimeStore (Fin 2) 0 0))) = Date 2000"
    by (simp add: store_defs Let_def exact_arith)
  from stop_freezes_snapshot [of "createMercurialTimeStore (Fin 2) 0 0" 1000
      "[Frame 1 2000, Stop 3000, Destroy, Frame 2 4000]"] r f n d
  show ?thesis by blast
qed



text \<open>
  C10 (as stated, refuted). The claim gives every snapshot the display time
  \<open>realTime + (rate - 1) * (realTime - baseRealMs)\<close>. A \<open>Date\<close> holds whole milliseconds: a
  store of rate 1.1 created at instant 0 publishes, at its frame of instant 16, the display
  time 17, where the expression of the claim is 17.6. Nor is the display time that
  expression made a \<open>Date\<close>: the code computes \<open>baseDisplayMs + (realTime - baseRealMs) * rate\<close>,
  and the two round differently. A store of rate 2.3 created at instant 0 publishes, at its
  frame of instant 90, the display time 206; the expression of the claim gives 207.
\<close>

theorem snapshot_equation_counterexample:
  "(let e = run (createMercurialTimeStore (Fin 1.1) 0 0) [Frame 1 16]; s = subscribe e
    in getTime (displayTime s)
         \<noteq> getTime (realTime s)
             + (MercurialTimeState.rate s - Fin 1) * (getTime (realTime s) - Fin (of_int (baseRealMs e))))
   \<and> (let e = run (createMercurialTimeStore (Fin 2.3) 0 0) [Frame 1 90]; s = subscribe e
      in displayTime s
           \<noteq> new_Date (getTime (realTime s)
               + (MercurialTimeState.rate s - Fin 1) * (getTime (realTime s) - Fin (of_int (baseRealMs e)))))"
proof -
  have a: "subscribe (run (createMercurialTimeStore (Fin 1.1) 0 0) [Frame 1 16])
      = \<lparr> displayTime = Date 17, realTime = Date 16, MercurialTimeState.rate = Fin 1.1,
          MercurialTimeState.isRunning = True \<rparr>
    \<and> baseRealMs (run (createMercurialTimeStore (Fin 1.1) 0 0) [Frame 1 16]) = 0"
    by (simp add: store_defs Let_def exact_arith times_16_11 double_16_11)
  have a': "Fin 16 + (Fin 1.1 - Fin 1) * (Fin 16 - Fin 0) = Fin (2476979795053773 / 140737488355328)"
    by (simp add: exact_arith minus_11_1 double_16_11 double_11_minus_1 double_16_01)
  have b: "subscribe (run (createMercurialTimeStore (Fin 2.3) 0 0) [Frame 1 90])
      = \<lparr> displayTime = Date 206, realTime = Date 90, MercurialTimeState.rate = Fin 2.3,
          MercurialTimeState.isRunning = True \<rparr>
    \<and> baseRealMs (run (createMercurialTimeStore (Fin 2.3) 0 0) [Frame 1 90]) = 0"
    by (simp add: store_defs Let_def exact_arith times_90_23 double_90_23)
  have b': "new_Date (Fin 90 + (Fin 2.3 - Fin 1) * (Fin 90 - Fin 0)) = Date 207"
    by (simp add: exact_arith minus_23_1 times_13_90 plus_90_117)
  from a a' b b' show ?thesis
    by (simp add: Let_def)
qed

text \<open>
  C10 (amended). The two anchors are equal at creation and after every operation:
  creation, \<open>setRate\<close> and \<open>reset\<close> set both to one clock read, \<open>start\<close>, \<open>stop\<close>, \<open>destroy\<close>
  and a frame leave both as they are, and a frame during which subscribers call the store
  keeps them equal. Hence the snapshot computed at instant \<open>now\<close> has the display time
  \<open>new Date(baseRealMs + (now - baseRealMs) * rate)\<close>, in the arithmetic of JavaScript and
  truncated to whole milliseconds; and the snapshot that the store holds is one of these.
\<close>

theorem anchors_always_equal:
  "baseRealMs (run (createMercurialTimeStore r t0 t1) evs)
     = baseDisplayMs (run (createMercurialTimeStore r t0 t1) evs)
   \<and> baseRealMs (createMercurialTimeStore r t0 t1) = t0
   \<and> baseDisplayMs (createMercurialTimeStore r t0 t1) = t0
   \<and> baseRealMs (setRate r' now' t e) = now' \<and> baseDisplayMs (setRate r' now' t e) = now'
   \<and> baseRealMs (reset now' t e) = now' \<and> baseDisplayMs (reset now' t e) = now'
   \<and> baseRealMs (start t e) = baseRealMs e \<and> baseDisplayMs (start t e) = baseDisplayMs e
   \<and> baseRealMs (stop t e) = baseRealMs e \<and> baseDisplayMs (stop t e) = baseDisplayMs e
   \<and> baseRealMs (destroy e) = baseRealMs e \<and> baseDisplayMs (destroy e) = baseDisplayMs e
   \<and> baseRealMs (frame i now' e) = baseRealMs e \<and> baseDisplayMs (frame i now' e) = baseDisplayMs e
   \<and> (baseRealMs e = baseDisplayMs e \<longrightarrow>
        baseRealMs (frame_calling i now' calls e) = baseDisplayMs (frame_calling i now' calls e)
        \<and> displayTime (computeState e now)
            = new_Date (Fin (of_int (baseRealMs e))
                + (Fin (of_int now) - Fin (of_int (baseRealMs e))) * MercurialTimeStore.rate e))
   \<and> displayTime (computeState (run (createMercurialTimeStore r t0 t1) evs) now)
       = new_Date (Fin (of_int (baseRealMs (run (createMercurialTimeStore r t0 t1) evs)))
           + (Fin (of_int now)
              - Fin (of_int (baseRealMs (run (createMercurialTimeStore r t0 t1) evs))))
             * MercurialTimeStore.rate (run (createMercurialTimeStore r t0 t1) evs))
   \<and> (\<exists>t. subscribe (run (createMercurialTimeStore r t0 t1) evs)
            = computeState (run (createMercurialTimeStore r t0 t1) evs) t)"
proof -
  define e' where "e' = run (createMercurialTimeStore r t0 t1) evs"
  have eq: "baseRealMs e' = baseDisplayMs e'"
    unfolding e'_def by (rule anchors_run [OF anchors_create])
  have fresh: "displayTime (computeState e' now)
       = new_Date (Fin (of_int (baseRealMs e'))
           + (Fin (of_int now) - Fin (of_int (baseRealMs e'))) * MercurialTimeStore.rate e')"
    using eq by (simp add: computeState_def computeMercurialTime_def)
  have "\<exists>t'. storeValue e' = computeState e' t'"
    unfolding e'_def by (rule stored_run) (rule exI, rule stored_create)
  then have stored: "\<exists>t. subscribe e' = computeState e' t"
    by (simp add: subscribe_def)
  have fc: "baseRealMs e = baseDisplayMs e \<longrightarrow>
        baseRealMs (frame_calling i now' calls e) = baseDisplayMs (frame_calling i now' calls e)
        \<and> displayTime (computeState e now)
            = new_Date (Fin (of_int (baseRealMs e))
                + (Fin (of_int now) - Fin (of_int (baseRealMs e))) * MercurialTimeStore.rate e)"
    using anchors_frame_calling [of e i now' calls]
    by (simp add: computeState_def computeMercurialTime_def)
  from eq fresh stored fc anchors_ops [of r t0 t1 r' now' t e i] show ?thesis
    unfolding e'_def [symmetric] by blast
qed

text \<open>
  A store of rate 1.1 created at instant 0: a frame during which a subscriber calls
  \<open>reset\<close> at 20 and \<open>stop\<close> leaves both anchors at 20, \<open>setRate\<close> at 30 leaves both at 30,
  and the snapshot computed at 16 shows display time 17.
\<close>

theorem anchors_always_equal_witness:
  "baseRealMs (createMercurialTimeStore (Fin 1.1) 0 0)
     = baseDisplayMs (createMercurialTimeStore (Fin 1.1) 0 0)
   \<and> baseRealMs (frame_calling 1 16 [CallReset 20 20, CallStop 21]
        (createMercurialTimeStore (Fin 1.1) 0 0)) = 20
   \<and> baseDisplayMs (frame_calling 1 16 [CallReset 20 20, CallStop 21]
        (createMercurialTimeStore (Fin 1.1) 0 0)) = 20
   \<and> baseRealMs (run (createMercurialTimeStore (Fin 1.1) 0 0) [Frame 1 16, SetRate (Fin 2) 30 30]) = 30
   \<and> baseDisplayMs (run (createMercurialTimeStore (Fin 1.1) 0 0) [Frame 1 16, SetRate (Fin 2) 30 30]) = 30
   \<and> displayTime (computeState (createMercurialTimeStore (Fin 1.1) 0 0) 16) = Date 17"
proof -
  let ?c = "createMercurialTimeStore (Fin 1.1) 0 0"
  have h: "baseRealMs ?c = baseDisplayMs ?c"
    by (simp add: store_defs Let_def)
  have v: "baseRealMs (frame_calling 1 16 [CallReset 20 20, CallStop 21] ?c) = 20"
    by (simp add: store_defs Let_def)
  have w: "baseRealMs (run ?c [Frame 1 16, SetRate (Fin 2) 30 30]) = 30"
    by (simp add: store_defs Let_def)
  have c: "baseRealMs ?c = 0 \<and> MercurialTimeStore.rate ?c = Fin 1.1"
    by (simp add: store_defs Let_def)
  note th = anchors_always_equal [of "Fin 1.1" 0 0 "[Frame 1 16, SetRate (Fin 2) 30 30]" "Fin 1" 16 0 ?c
      1 "[CallReset 20 20, CallStop 21]" 16]
  from th h v w
  have a: "baseDisplayMs (frame_calling 1 16 [CallReset 20 20, CallStop 21] ?c) = 20
    \<and> baseDisplayMs (run ?c [Frame 1 16, SetRate (Fin 2) 30 30]) = 30"
    by simp
  from th h
  have "displayTime (computeState ?c 16)
       = new_Date (Fin (of_int (baseRealMs ?c))
           + (Fin (of_int 16) - Fin (of_int (baseRealMs ?c))) * MercurialTimeStore.rate ?c)"
    by blast
  with c have d: "displayTime (computeState ?c 16) = Date 17"
    by (simp add: exact_arith times_16_11 double_16_11)
  from h v w a d show ?thesis by blast
qed

section \<open>Storage: lemmas\<close>

lemma clamp_spec: "\<not> isNaN n \<Longrightarrow> clamp n RATE_MIN RATE_MAX = spec_rate n"
  by (cases n) (auto simp: clamp_def Math_min_def Math_max_def RATE_MIN_def RATE_MAX_def spec_rate_def)

lemma spec_rate_valid: "case spec_rate n of Fin r \<Rightarrow> 0.1 \<le> r \<and> r \<le> 10 | _ \<Rightarrow> False"
  by (cases n) (auto simp: spec_rate_def)

lemma normalize_rate:
  "Settings.rate (normalizeSettings h (JObj kvs)) =
     (case get_prop (JObj kvs) ''rate'' of
        JNum n \<Rightarrow> spec_rate n
      | JStr s \<Rightarrow> spec_rate (parseFloat h s)
      | _ \<Rightarrow> Fin 1.1)"
  by (auto simp: normalizeSettings_def Let_def clamp_spec DEFAULT_SETTINGS_def spec_rate_def
        split: jsval.splits option.splits)

lemma normalize_flags:
  "showSecondHand (normalizeSettings h (JObj kvs)) =
     (case get_prop (JObj kvs) ''showSecondHand'' of JBool b \<Rightarrow> b | _ \<Rightarrow> False)
   \<and> showNumbers (normalizeSettings h (JObj kvs)) =
     (case get_prop (JObj kvs) ''showNumbers'' of JBool b \<Rightarrow> b | _ \<Rightarrow> True)
   \<and> showDigitalTime (normalizeSettings h (JObj kvs)) =
     (case get_prop (JObj kvs) ''showDigitalTime'' of JBool b \<Rightarrow> b | _ \<Rightarrow> False)"
  by (simp add: normalizeSettings_def Let_def DEFAULT_SETTINGS_def split: jsval.splits)

lemma normalize_enums:
  "theme (normalizeSettings h (JObj kvs)) = ''classic''
   \<and> colorMode (normalizeSettings h (JObj kvs)) =
     (case get_prop (JObj kvs) ''colorMode'' of
        JStr s \<Rightarrow> if s \<in> set VALID_COLOR_MODES then s else ''system''
      | _ \<Rightarrow> ''system'')"
  by (auto simp: normalizeSettings_def Let_def DEFAULT_SETTINGS_def array_includes_def as_string_def
        VALID_THEMES_def split: jsval.splits)

lemma normalize_non_object:
  "normalizeSettings h JNull = DEFAULT_SETTINGS \<and> normalizeSettings h JUndefined = DEFAULT_SETTINGS
   \<and> normalizeSettings h (JBool b) = DEFAULT_SETTINGS \<and> normalizeSettings h (JNum n) = DEFAULT_SETTINGS
   \<and> normalizeSettings h (JStr s) = DEFAULT_SETTINGS \<and> normalizeSettings h (JBigInt i) = DEFAULT_SETTINGS
   \<and> normalizeSettings h JSymbol = DEFAULT_SETTINGS \<and> normalizeSettings h JFunction = DEFAULT_SETTINGS"
  by (simp add: normalizeSettings_def)

lemma get_prop_extra:
  "k' \<noteq> k \<Longrightarrow> get_prop (JObj (xs @ (k, v) # ys)) k' = get_prop (JObj (xs @ ys)) k'"
  by (simp add: map_add_def split: option.splits)

lemma normalize_extra:
  "k \<notin> set field_names \<Longrightarrow>
   normalizeSettings h (JObj (xs @ (k, v) # ys)) = normalizeSettings h (JObj (xs @ ys))"
proof -
  assume "k \<notin> set field_names"
  then have ne: "''rate'' \<noteq> k" "''showSecondHand'' \<noteq> k" "''showNumbers'' \<noteq> k"
    "''showDigitalTime'' \<noteq> k" "''theme'' \<noteq> k" "''colorMode'' \<noteq> k"
    by (auto simp: field_names_def)
  show ?thesis
    unfolding normalizeSettings_def Let_def
    by (simp only: get_prop_extra [OF ne(1)] get_prop_extra [OF ne(2)] get_prop_extra [OF ne(3)]
          get_prop_extra [OF ne(4)] get_prop_extra [OF ne(5)] get_prop_extra [OF ne(6)]
          typeof.simps jsval.distinct)
qed

lemma normalize_valid: "valid_settings (normalizeSettings h raw)"
proof (cases raw)
  case (JObj kvs)
  have "case Settings.rate (normalizeSettings h (JObj kvs)) of
          Fin r \<Rightarrow> 0.1 \<le> r \<and> r \<le> 10 | _ \<Rightarrow> False"
    using spec_rate_valid
    by (simp add: normalize_rate spec_rate_def split: jsval.splits)
  moreover have "colorMode (normalizeSettings h (JObj kvs)) \<in> set VALID_COLOR_MODES"
    by (simp add: normalize_enums VALID_COLOR_MODES_def split: jsval.splits)
  ultimately show ?thesis
    using JObj by (simp add: valid_settings_def normalize_enums VALID_THEMES_def)
qed (simp_all add: normalize_non_object valid_settings_def DEFAULT_SETTINGS_def
       VALID_THEMES_def VALID_COLOR_MODES_def)

lemma normalize_roundtrip:
  "valid_settings s \<Longrightarrow> normalizeSettings h (settings_object s) = s"
  by (cases s)
     (auto simp: valid_settings_def normalizeSettings_def settings_object_def Let_def
        array_includes_def as_string_def clamp_def Math_min_def Math_max_def RATE_MIN_def
        RATE_MAX_def split: jsnum.splits)

text \<open>\<open>normalizeSettings\<close> reads an object through its six properties only.\<close>

lemma normalize_props:
  assumes "\<forall>k\<in>set field_names. get_prop (JObj kvs) k = get_prop (JObj kvs') k"
  shows "normalizeSettings h (JObj kvs) = normalizeSettings h (JObj kvs')"
proof -
  from assms have eq: "get_prop (JObj kvs) ''rate'' = get_prop (JObj kvs') ''rate''"
    "get_prop (JObj kvs) ''showSecondHand'' = get_prop (JObj kvs') ''showSecondHand''"
    "get_prop (JObj kvs) ''showNumbers'' = get_prop (JObj kvs') ''showNumbers''"
    "get_prop (JObj kvs) ''showDigitalTime'' = get_prop (JObj kvs') ''showDigitalTime''"
    "get_prop (JObj kvs) ''theme'' = get_prop (JObj kvs') ''theme''"
    "get_prop (JObj kvs) ''colorMode'' = get_prop (JObj kvs') ''colorMode''"
    by (simp_all add: field_names_def)
  show ?thesis
    unfolding normalizeSettings_def Let_def
    by (simp only: eq typeof.simps jsval.distinct)
qed

section \<open>Storage: properties\<close>

text \<open>
  C7. For every input, \<open>normalizeSettings\<close> returns well-formed settings. \<open>null\<close>,
  \<open>undefined\<close> and every non-object give the defaults. For an object: the rate is the
  normalised number (clamped into \<open>[0.1, 10]\<close>, 1.1 for \<open>NaN\<close>), a string being parsed by
  \<open>parseFloat\<close> first, and 1.1 when missing or of another type; a flag is kept when boolean
  and defaulted otherwise; the theme is always \<open>classic\<close>; the colour mode is kept when
  known and \<open>system\<close> otherwise; and a property of another name has no effect on the
  result.
\<close>

theorem normalizeSettings_well_formed:
  "valid_settings (normalizeSettings h raw)
   \<and> normalizeSettings h JNull = DEFAULT_SETTINGS
   \<and> normalizeSettings h JUndefined = DEFAULT_SETTINGS
   \<and> normalizeSettings h (JBool b) = DEFAULT_SETTINGS
   \<and> normalizeSettings h (JNum n) = DEFAULT_SETTINGS
   \<and> normalizeSettings h (JStr s) = DEFAULT_SETTINGS
   \<and> normalizeSettings h (JBigInt i) = DEFAULT_SETTINGS
   \<and> normalizeSettings h JSymbol = DEFAULT_SETTINGS
   \<and> normalizeSettings h JFunction = DEFAULT_SETTINGS
   \<and> Settings.rate (normalizeSettings h (JObj kvs)) =
       (case get_prop (JObj kvs) ''rate'' of
          JNum n \<Rightarrow> spec_rate n
        | JStr s \<Rightarrow> spec_rate (parseFloat h s)
        | _ \<Rightarrow> Fin 1.1)
   \<and> showSecondHand (normalizeSettings h (JObj kvs)) =
       (case get_prop (JObj kvs) ''showSecondHand'' of JBool b \<Rightarrow> b | _ \<Rightarrow> False)
   \<and> showNumbers (normalizeSettings h (JObj kvs)) =
       (case get_prop (JObj kvs) ''showNumbers'' of JBool b \<Rightarrow> b | _ \<Rightarrow> True)
   \<and> showDigitalTime (normalizeSettings h (JObj kvs)) =
       (case get_prop (JObj kvs) ''showDigitalTime'' of JBool b \<Rightarrow> b | _ \<Rightarrow> False)
   \<and> theme (normalizeSettings h (JObj kvs)) = ''classic''
   \<and> colorMode (normalizeSettings h (JObj kvs)) =
       (case get_prop (JObj kvs) ''colorMode'' of
          JStr s \<Rightarrow> if s \<in> set VALID_COLOR_MODES then s else ''system''
        | _ \<Rightarrow> ''system'')
   \<and> (k \<notin> set field_names \<longrightarrow>
        normalizeSettings h (JObj (xs @ (k, v) # ys)) = normalizeSettings h (JObj (xs @ ys)))"
  using normalize_valid [of h raw] normalize_non_object [of h b n s i] normalize_rate [of h kvs]
    normalize_flags [of h kvs] normalize_enums [of h kvs] normalize_extra [of k h xs v ys]
  by blast

text \<open>The cases of the repository's tests: a string rate, an unknown property, a non-boolean flag, rates 15, \<open>NaN\<close> and \<open>-Infinity\<close>.\<close>

theorem normalizeSettings_well_formed_witness:
  "''unknownProp'' \<notin> set field_names
   \<and> normalizeSettings (memory_host 1000 True)
        (JObj [(''rate'', JStr ''1.5''), (''unknownProp'', JStr ''should be ignored''),
               (''showSecondHand'', JNum (Fin 1)), (''colorMode'', JStr ''dark'')])
     = DEFAULT_SETTINGS\<lparr> Settings.rate := Fin 1.5, colorMode := ''dark'' \<rparr>
   \<and> Settings.rate (normalizeSettings (memory_host 1000 True) (JObj [(''rate'', JNum (Fin 15))]))
     = Fin 10
   \<and> Settings.rate (normalizeSettings (memory_host 1000 True) (JObj [(''rate'', JNum NaN)]))
     = Fin 1.1
   \<and> valid_settings (normalizeSettings (memory_host 1000 True) (JObj [(''rate'', JNum NInf)]))"
proof -
  have k: "''unknownProp'' \<notin> set field_names"
    by (simp add: field_names_def)
  have e: "normalizeSettings (memory_host 1000 True)
        (JObj ([(''rate'', JStr ''1.5'')] @ [(''showSecondHand'', JNum (Fin 1)), (''colorMode'', JStr ''dark'')]))
     = DEFAULT_SETTINGS\<lparr> Settings.rate := Fin 1.5, colorMode := ''dark'' \<rparr>"
    by (simp add: normalizeSettings_def memory_host_def DEFAULT_SETTINGS_def Let_def clamp_def
          Math_min_def Math_max_def RATE_MIN_def RATE_MAX_def array_includes_def as_string_def
          VALID_THEMES_def VALID_COLOR_MODES_def)
  note th = normalizeSettings_well_formed [of "memory_host 1000 True"]
  from th [of _ _ _ _ _ _ "''unknownProp''" "[(''rate'', JStr ''1.5'')]" "JStr ''should be ignored''"
      "[(''showSecondHand'', JNum (Fin 1)), (''colorMode'', JStr ''dark'')]"] k e
  have a: "normalizeSettings (memory_host 1000 True)
        (JObj [(''rate'', JStr ''1.5''), (''unknownProp'', JStr ''should be ignored''),
               (''showSecondHand'', JNum (Fin 1)), (''colorMode'', JStr ''dark'')])
     = DEFAULT_SETTINGS\<lparr> Settings.rate := Fin 1.5, colorMode := ''dark'' \<rparr>"
    by simp
  from th [of _ _ _ _ _ "[(''rate'', JNum (Fin 15))]"]
  have b: "Settings.rate (normalizeSettings (memory_host 1000 True) (JObj [(''rate'', JNum (Fin 15))]))
     = Fin 10"
    by (simp add: spec_rate_def)
  from th [of _ _ _ _ _ "[(''rate'', JNum NaN)]"]
  have c: "Settings.rate (normalizeSettings (memory_host 1000 True) (JObj [(''rate'', JNum NaN)]))
     = Fin 1.1"
    by (simp add: spec_rate_def)
  from th [of "JObj [(''rate'', JNum NInf)]"]
  have d: "valid_settings (normalizeSettings (memory_host 1000 True) (JObj [(''rate'', JNum NInf)]))"
    by blast
  from k a b c d show ?thesis by blast
qed

text \<open>
  C8. For well-formed settings \<open>s\<close>, loading after saving returns \<open>s\<close>, on a host that
  saved: \<open>JSON.stringify\<close> gives a (non-empty) text for \<open>s\<close>, the storage accepts the write
  and returns that text on the next read, and \<open>JSON.parse\<close> of the text is an object whose
  six settings properties hold the values of \<open>s\<close> (other properties, and the order, are
  free). These are properties of the host's \<open>localStorage\<close> and \<open>JSON\<close>, which the model
  takes as parameters.
\<close>

theorem settings_roundtrip:
  "valid_settings s \<and> JSON_stringify h (settings_object s) = Inr txt \<and> txt \<noteq> []
   \<and> setItem h st STORAGE_KEY txt = Inr st' \<and> getItem h st' STORAGE_KEY = Inr (Some txt)
   \<and> JSON_parse h txt = Inr (JObj kvs)
   \<and> list_all (\<lambda>k. get_prop (JObj kvs) k = get_prop (settings_object s) k) field_names
   \<longrightarrow> saveToStorage h s st = Inr st' \<and> loadFromStorage h st' = Inr s"
proof (intro impI)
  assume a: "valid_settings s \<and> JSON_stringify h (settings_object s) = Inr txt \<and> txt \<noteq> []
   \<and> setItem h st STORAGE_KEY txt = Inr st' \<and> getItem h st' STORAGE_KEY = Inr (Some txt)
   \<and> JSON_parse h txt = Inr (JObj kvs)
   \<and> list_all (\<lambda>k. get_prop (JObj kvs) k = get_prop (settings_object s) k) field_names"
  from a have v: "valid_settings s"
    by simp
  obtain kvs' where o: "settings_object s = JObj kvs'"
    by (simp add: settings_object_def)
  from a have "list_all (\<lambda>k. get_prop (JObj kvs) k = get_prop (JObj kvs') k) field_names"
    by (simp only: o)
  then have "normalizeSettings h (JObj kvs) = normalizeSettings h (JObj kvs')"
    by (intro normalize_props) (simp only: list_all_iff)
  also have "\<dots> = normalizeSettings h (settings_object s)"
    by (simp only: o)
  also have "\<dots> = s"
    using v by (rule normalize_roundtrip)
  finally have "normalizeSettings h (JObj kvs) = s" .
  with a show "saveToStorage h s st = Inr st' \<and> loadFromStorage h st' = Inr s"
    by (simp add: saveToStorage_def loadFromStorage_def try_catch_def)
qed

text \<open>Saving the example settings to an empty storage and loading them back.\<close>

theorem settings_roundtrip_witness:
  "valid_settings example_settings
   \<and> JSON_stringify (memory_host 1000 True) (settings_object example_settings) = Inr example_text
   \<and> example_text \<noteq> []
   \<and> setItem (memory_host 1000 True) [] STORAGE_KEY example_text = Inr [(STORAGE_KEY, example_text)]
   \<and> getItem (memory_host 1000 True) [(STORAGE_KEY, example_text)] STORAGE_KEY = Inr (Some example_text)
   \<and> JSON_parse (memory_host 1000 True) example_text
       = Inr (JObj [(''rate'', JNum (Fin 2)), (''showSecondHand'', JBool False),
               (''showNumbers'', JBool True), (''showDigitalTime'', JBool False),
               (''theme'', JStr ''classic''), (''colorMode'', JStr ''system'')])
   \<and> list_all (\<lambda>k. get_prop (JObj [(''rate'', JNum (Fin 2)), (''showSecondHand'', JBool False),
               (''showNumbers'', JBool True), (''showDigitalTime'', JBool False),
               (''theme'', JStr ''classic''), (''colorMode'', JStr ''system'')]) k
                    = get_prop (settings_object example_settings) k) field_names
   \<and> saveToStorage (memory_host 1000 True) example_settings [] = Inr [(STORAGE_KEY, example_text)]
   \<and> loadFromStorage (memory_host 1000 True) [(STORAGE_KEY, example_text)] = Inr example_settings"
proof -
  have h: "valid_settings example_settings
   \<and> JSON_stringify (memory_host 1000 True) (settings_object example_settings) = Inr example_text
   \<and> example_text \<noteq> []
   \<and> setItem (memory_host 1000 True) [] STORAGE_KEY example_text = Inr [(STORAGE_KEY, example_text)]
   \<and> getItem (memory_host 1000 True) [(STORAGE_KEY, example_text)] STORAGE_KEY = Inr (Some example_text)"
    by (simp add: valid_settings_def memory_host_def example_settings_def DEFAULT_SETTINGS_def
          VALID_THEMES_def VALID_COLOR_MODES_def) (simp add: example_text_def)
  have j: "JSON_parse (memory_host 1000 True) example_text
       = Inr (JObj [(''rate'', JNum (Fin 2)), (''showSecondHand'', JBool False),
               (''showNumbers'', JBool True), (''showDigitalTime'', JBool False),
               (''theme'', JStr ''classic''), (''colorMode'', JStr ''system'')])"
    by (simp add: memory_host_def settings_object_def example_settings_def DEFAULT_SETTINGS_def)
  have p: "list_all (\<lambda>k. get_prop (JObj [(''rate'', JNum (Fin 2)), (''showSecondHand'', JBool False),
               (''showNumbers'', JBool True), (''showDigitalTime'', JBool False),
               (''theme'', JStr ''classic''), (''colorMode'', JStr ''system'')]) k
                    = get_prop (settings_object example_settings) k) field_names"
    by (simp add: field_names_def settings_object_def example_settings_def DEFAULT_SETTINGS_def)
  from settings_roundtrip [of example_settings "memory_host 1000 True" example_text "[]"
      "[(STORAGE_KEY, example_text)]"
      "[(''rate'', JNum (Fin 2)), (''showSecondHand'', JBool False),
               (''showNumbers'', JBool True), (''showDigitalTime'', JBool False),
               (''theme'', JStr ''classic''), (''colorMode'', JStr ''system'')]"] h j p
  show ?thesis by blast
qed

text \<open>
  C9. Whatever the host does, \<open>loadFromStorage\<close> returns (it never throws) and what it
  returns is well-formed; it returns the defaults when nothing is stored, when the stored
  text does not parse, and when reading the storage throws. \<open>saveToStorage\<close> always returns,
  and when the storage rejects the write it leaves the storage as it was.
\<close>

theorem storage_never_throws:
  "(\<exists>s. loadFromStorage h st = Inr s \<and> valid_settings s)
   \<and> (getItem h1 st1 STORAGE_KEY = Inr None \<longrightarrow> loadFromStorage h1 st1 = Inr DEFAULT_SETTINGS)
   \<and> (getItem h2 st2 STORAGE_KEY = Inr (Some txt) \<and> JSON_parse h2 txt = Inl e2 \<longrightarrow>
        loadFromStorage h2 st2 = Inr DEFAULT_SETTINGS)
   \<and> (getItem h3 st3 STORAGE_KEY = Inl e3 \<longrightarrow> loadFromStorage h3 st3 = Inr DEFAULT_SETTINGS)
   \<and> (\<exists>st'. saveToStorage h s st = Inr st')
   \<and> (JSON_stringify h4 (settings_object s4) = Inr txt4 \<and> setItem h4 st4 STORAGE_KEY txt4 = Inl e4
        \<longrightarrow> saveToStorage h4 s4 st4 = Inr st4)"
proof (intro conjI impI)
  have d: "valid_settings DEFAULT_SETTINGS"
    by (simp add: valid_settings_def DEFAULT_SETTINGS_def VALID_THEMES_def VALID_COLOR_MODES_def)
  show "\<exists>s. loadFromStorage h st = Inr s \<and> valid_settings s"
    using d by (auto simp: loadFromStorage_def try_catch_def normalize_valid
                  split: sum.splits option.splits)
  show "\<exists>st'. saveToStorage h s st = Inr st'"
    by (auto simp: saveToStorage_def try_catch_def split: sum.splits)
qed (auto simp: loadFromStorage_def saveToStorage_def try_catch_def)

theorem storage_never_throws_witness:
  "getItem (memory_host 1000 True) [] STORAGE_KEY = Inr None
   \<and> loadFromStorage (memory_host 1000 True) [] = Inr DEFAULT_SETTINGS
   \<and> getItem (memory_host 1000 True) [(STORAGE_KEY, ''{ invalid json }'')] STORAGE_KEY
       = Inr (Some ''{ invalid json }'')
   \<and> JSON_parse (memory_host 1000 True) ''{ invalid json }'' = Inl (Error ''SyntaxError'')
   \<and> loadFromStorage (memory_host 1000 True) [(STORAGE_KEY, ''{ invalid json }'')]
       = Inr DEFAULT_SETTINGS
   \<and> getItem (memory_host 1000 False) [] STORAGE_KEY = Inl (Error ''SecurityError'')
   \<and> loadFromStorage (memory_host 1000 False) [] = Inr DEFAULT_SETTINGS
   \<and> JSON_stringify (memory_host 0 True) (settings_object example_settings) = Inr example_text
   \<and> setItem (memory_host 0 True) [] STORAGE_KEY example_text = Inl (Error ''QuotaExceededError'')
   \<and> saveToStorage (memory_host 0 True) example_settings [] = Inr []"
proof -
  have a: "getItem (memory_host 1000 True) [] STORAGE_KEY = Inr None"
    by (simp add: memory_host_def)
  have b: "getItem (memory_host 1000 True) [(STORAGE_KEY, ''{ invalid json }'')] STORAGE_KEY
       = Inr (Some ''{ invalid json }'')
     \<and> JSON_parse (memory_host 1000 True) ''{ invalid json }'' = Inl (Error ''SyntaxError'')"
    by (simp add: memory_host_def example_text_def)
  have c: "getItem (memory_host 1000 False) [] STORAGE_KEY = Inl (Error ''SecurityError'')"
    by (simp add: memory_host_def)
  have d: "JSON_stringify (memory_host 0 True) (settings_object example_settings) = Inr example_text
     \<and> setItem (memory_host 0 True) [] STORAGE_KEY example_text = Inl (Error ''QuotaExceededError'')"
    by (simp add: memory_host_def) (simp add: example_text_def)
  from storage_never_throws [of "memory_host 1000 True" "[]" "memory_host 1000 True" "[]" "memory_host 1000 True"
      "[(STORAGE_KEY, ''{ invalid json }'')]" "''{ invalid json }''" "Error ''SyntaxError''"
      "memory_host 1000 False" "[]" "Error ''SecurityError''" example_settings "memory_host 0 True"
      example_settings example_text "[]" "Error ''QuotaExceededError''"] a b c d
  show ?thesis by blast
qed

end
